theory Spec2Isabelle
  imports Complex_Main "HOL-Library.Char_ord" "HOL-Library.List_Lexorder" "HOL-Library.Log_Nat"
begin

section \<open>Strings and paths (the parts of \<^verbatim>\<open>str\<close> and \<^verbatim>\<open>pathlib.Path\<close> that create-video.py uses)\<close>

text \<open>
  File names are lists of 8-bit characters standing for ASCII code points; names with
  characters beyond ASCII are outside the model. A path is the list of its components
  (\<^verbatim>\<open>Path.parts\<close>), so \<^verbatim>\<open>d / name\<close> is \<open>d @ [name]\<close>.

  The text the program strips (the content of a narration file, the output of
  \<^verbatim>\<open>ffprobe\<close>) is a Python \<^verbatim>\<open>str\<close>: a list of Unicode code points, given as
  integers. \<open>ascii\<close> turns an ASCII literal into such a text.
\<close>

type_synonym path = "string list"

type_synonym ustring = "int list"

definition ascii :: "string \<Rightarrow> ustring" where
  "ascii s = map of_char s"

text \<open>The code points \<^verbatim>\<open>str.strip()\<close> removes (those for which \<^verbatim>\<open>str.isspace()\<close>
  holds): U+0009 to U+000D, U+001C to U+0020, U+0085, U+00A0, U+1680, U+2000 to U+200A,
  U+2028, U+2029, U+202F, U+205F and U+3000.\<close>

definition py_isspace :: "int \<Rightarrow> bool" where
  "py_isspace n =
     ((0x09 \<le> n \<and> n \<le> 0x0D) \<or> (0x1C \<le> n \<and> n \<le> 0x20) \<or> n = 0x85 \<or> n = 0xA0
      \<or> n = 0x1680 \<or> (0x2000 \<le> n \<and> n \<le> 0x200A) \<or> n = 0x2028 \<or> n = 0x2029
      \<or> n = 0x202F \<or> n = 0x205F \<or> n = 0x3000)"

definition py_strip :: "ustring \<Rightarrow> ustring" where
  "py_strip s = rev (dropWhile py_isspace (rev (dropWhile py_isspace s)))"

definition py_lower_char :: "char \<Rightarrow> char" where
  "py_lower_char c = (let n = (of_char c :: nat) in if 65 \<le> n \<and> n \<le> 90 then char_of (n + 32) else c)"

definition py_lower :: "string \<Rightarrow> string" where
  "py_lower s = map py_lower_char s"

definition rfind_dot :: "string \<Rightarrow> nat option" where
  "rfind_dot s =
     (let k = length (takeWhile (\<lambda>c. c \<noteq> CHR ''.'') (rev s))
      in if k = length s then None else Some (length s - 1 - k))"

definition path_name :: "path \<Rightarrow> string" where
  "path_name p = (if p = [] then [] else last p)"

definition path_parent :: "path \<Rightarrow> path" where
  "path_parent p = butlast p"

text \<open>\<^verbatim>\<open>PurePath.suffix\<close>: the part of the name from its last dot on, when that dot is
  neither the first nor the last character of the name; otherwise the empty string.\<close>

definition name_suffix :: "string \<Rightarrow> string" where
  "name_suffix n =
     (case rfind_dot n of
        None \<Rightarrow> []
      | Some i \<Rightarrow> if 0 < i \<and> i < length n - 1 then drop i n else [])"

definition name_stem :: "string \<Rightarrow> string" where
  "name_stem n =
     (case rfind_dot n of
        None \<Rightarrow> n
      | Some i \<Rightarrow> if 0 < i \<and> i < length n - 1 then take i n else n)"

definition suffix :: "path \<Rightarrow> string" where
  "suffix p = name_suffix (path_name p)"

definition stem :: "path \<Rightarrow> string" where
  "stem p = name_stem (path_name p)"

text \<open>\<^verbatim>\<open>f"{n:04d}"\<close>: the decimal digits of \<open>n\<close>, padded with zeros on the left to width 4.\<close>

definition digit_char :: "nat \<Rightarrow> char" where
  "digit_char d = char_of (48 + d)"

fun decimal :: "nat \<Rightarrow> string" where
  "decimal n = (if n < 10 then [digit_char n] else decimal (n div 10) @ [digit_char (n mod 10)])"

declare decimal.simps [simp del]

definition fmt04d :: "nat \<Rightarrow> string" where
  "fmt04d n = replicate (4 - length (decimal n)) CHR ''0'' @ decimal n"

section \<open>Constants\<close>

definition FRAME_DURATION :: rat where
  "FRAME_DURATION = 2"

section \<open>Python floats\<close>

text \<open>
  A finite Python float is an IEEE 754 double; the model takes it as the rational number
  it denotes. \<open>round_double\<close> rounds a rational to the nearest number with a 53-bit
  significand, ties to the even significand, and \<open>float_add\<close> is the correctly rounded
  sum, which is what \<^verbatim>\<open>+=\<close> on \<^verbatim>\<open>total_duration\<close> computes (the integer
  \<^verbatim>\<open>FRAME_DURATION\<close> is converted exactly). The exponent is not bounded: overflow to
  infinity, subnormal numbers, infinities and NaN are outside the model.
\<close>

definition pow2 :: "int \<Rightarrow> rat" where
  "pow2 n = (if 0 \<le> n then 2 ^ nat n else 1 / 2 ^ nat (- n))"

text \<open>The exponent \<open>e\<close> with \<open>2 ^ e \<le> a < 2 ^ (e + 1)\<close>, for \<open>a > 0\<close>.\<close>

definition floor_log2 :: "rat \<Rightarrow> int" where
  "floor_log2 a =
     (let (p, q) = quotient_of a; e0 = bitlen p - bitlen q
      in if pow2 e0 \<le> a then e0 else e0 - 1)"

definition round_half_even :: "rat \<Rightarrow> int" where
  "round_half_even m =
     (let f = \<lfloor>m\<rfloor>; d = m - of_int f
      in if d < 1 / 2 then f else if 1 / 2 < d then f + 1 else if even f then f else f + 1)"

definition round_double :: "rat \<Rightarrow> rat" where
  "round_double x =
     (if x = 0 then 0
      else (let a = \<bar>x\<bar>; s = pow2 (52 - floor_log2 a)
            in sgn x * of_int (round_half_even (a * s)) / s))"

definition float_add :: "rat \<Rightarrow> rat \<Rightarrow> rat" where
  "float_add x y = round_double (x + y)"

text \<open>\<^verbatim>\<open>total += d\<close> for each \<open>d\<close> of a list in turn.\<close>

definition float_accumulate :: "rat \<Rightarrow> rat list \<Rightarrow> rat" where
  "float_accumulate t0 ds = foldl float_add t0 ds"

section \<open>Segment building (main, lines 457-500)\<close>

text \<open>
  A \<open>segment\<close> records one call of \<^verbatim>\<open>build_silent_segment(image, segment)\<close> or
  \<^verbatim>\<open>build_audio_segment(image, audio, segment)\<close> together with the duration the loop
  adds to \<^verbatim>\<open>total_duration\<close> for it.
\<close>

datatype segment =
    is_SilentHold: SilentHold (seg_image: path) (seg_out: path) (seg_duration: rat)
  | is_AudioHeld: AudioHeld (seg_image: path) (seg_audio: path) (seg_out: path) (seg_duration: rat)

fun audio_of :: "segment \<Rightarrow> path option" where
  "audio_of (SilentHold img out d) = None"
| "audio_of (AudioHeld img a out d) = Some a"

text \<open>
  The collaborators of the loop: what \<^verbatim>\<open>ffprobe\<close> prints for an audio file, Python's
  \<^verbatim>\<open>float()\<close> (the double it returns, as the rational it denotes; \<open>None\<close> is
  \<^verbatim>\<open>ValueError\<close>), whether the \<^verbatim>\<open>ffmpeg\<close> run of
  a segment exits with status 0 (\<^verbatim>\<open>run_ffmpeg\<close> uses \<^verbatim>\<open>check=True\<close>), and
  \<^verbatim>\<open>str(p.resolve())\<close>, which depends on the working directory and on symbolic links.
\<close>

record env =
  ffprobe_stdout :: "path \<Rightarrow> ustring"
  py_float :: "ustring \<Rightarrow> rat option"
  ffmpeg_ok :: "segment \<Rightarrow> bool"
  resolve_str :: "path \<Rightarrow> string"

text \<open>Every way the modelled part of the run stops early: the \<^verbatim>\<open>sys.exit(1)\<close> calls of
  \<^verbatim>\<open>main\<close>, \<^verbatim>\<open>_ensure_kokoro_pipeline\<close> and \<^verbatim>\<open>run_kokoro_tts\<close>, and the exceptions
  raised by a missing file, a failed \<^verbatim>\<open>ffmpeg\<close> run and the loop's assertion.\<close>

datatype error =
    NoMediaFiles
  | NoScreenshots
  | FirstNotPng string
  | KokoroMissing
  | FileNotFound path
  | EmptyNarration string
  | NoAudioGenerated string
  | EncodeFailure path
  | AssertionError

definition get_audio_duration :: "env \<Rightarrow> path \<Rightarrow> rat option" where
  "get_audio_duration e audio_path =
     (let v = py_strip (ffprobe_stdout e audio_path)
      in if v = [] \<or> v = ascii ''N/A'' then None else py_float e v)"

record build_state =
  segment_index :: nat
  current_image :: "path option"
  total_duration :: rat
  concat_lines :: "string list"
  segments :: "segment list"

definition init_state :: build_state where
  "init_state = \<lparr>segment_index = 0, current_image = None, total_duration = 0,
                 concat_lines = [], segments = []\<rparr>"

definition segment_file :: "path \<Rightarrow> nat \<Rightarrow> path" where
  "segment_file sdir i = sdir @ [''segment-'' @ fmt04d i @ ''.mp4'']"

definition concat_line :: "env \<Rightarrow> path \<Rightarrow> string" where
  "concat_line e seg = ''file '' @ [CHR 0x27] @ resolve_str e seg @ [CHR 0x27, CHR 0x0A]"

text \<open>The two statements every iteration ends with unless it hit \<^verbatim>\<open>continue\<close>
  (lines 499-500).\<close>

definition write_line :: "env \<Rightarrow> path \<Rightarrow> build_state \<Rightarrow> build_state" where
  "write_line e sdir st =
     st\<lparr>concat_lines := concat_lines st @ [concat_line e (segment_file sdir (segment_index st))],
        segment_index := segment_index st + 1\<rparr>"

text \<open>One iteration of the loop on item \<open>f\<close>; \<open>next_file\<close> is
  \<^verbatim>\<open>media_files[i + 1] if i + 1 < len(media_files) else None\<close>.\<close>

definition build_step ::
  "env \<Rightarrow> path \<Rightarrow> rat \<Rightarrow> build_state \<Rightarrow> path \<Rightarrow> path option \<Rightarrow> error + build_state" where
  "build_step e sdir fd st f next_file =
     (let sf = segment_file sdir (segment_index st) in
      if suffix f = ''.png'' then
        (let st1 = st\<lparr>current_image := Some f\<rparr> in
         if (case next_file of None \<Rightarrow> False | Some n \<Rightarrow> suffix n \<in> {''.mp3'', ''.wav''})
         then Inr st1
         else if \<not> ffmpeg_ok e (SilentHold f sf fd) then Inl (EncodeFailure sf)
         else Inr (write_line e sdir
                     (st1\<lparr>segments := segments st1 @ [SilentHold f sf fd],
                          total_duration := float_add (total_duration st1) fd\<rparr>)))
      else if suffix f \<in> {''.mp3'', ''.wav''} then
        (case get_audio_duration e f of
           None \<Rightarrow> Inr st
         | Some audio_duration \<Rightarrow>
             (case current_image st of
                None \<Rightarrow> Inl AssertionError
              | Some img \<Rightarrow>
                  if \<not> ffmpeg_ok e (AudioHeld img f sf audio_duration) then Inl (EncodeFailure sf)
                  else Inr (write_line e sdir
                              (st\<lparr>segments := segments st @ [AudioHeld img f sf audio_duration],
                                  total_duration := float_add (total_duration st) audio_duration\<rparr>))))
      else Inr (write_line e sdir st))"

text \<open>The \<^verbatim>\<open>for i, f in enumerate(media_files)\<close> loop: the items still to process are
  \<open>f # rest\<close>, so \<^verbatim>\<open>media_files[i + 1]\<close> is the head of \<open>rest\<close> when there is one.\<close>

fun build_segments ::
  "env \<Rightarrow> path \<Rightarrow> rat \<Rightarrow> build_state \<Rightarrow> path list \<Rightarrow> error + build_state" where
  "build_segments e sdir fd st [] = Inr st"
| "build_segments e sdir fd st (f # rest) =
     (case build_step e sdir fd st f (case rest of [] \<Rightarrow> None | n # _ \<Rightarrow> Some n) of
        Inl err \<Rightarrow> Inl err
      | Inr st' \<Rightarrow> build_segments e sdir fd st' rest)"

section \<open>Narration cache (run_kokoro_tts, and main, lines 390-427)\<close>

text \<open>
  The file system as far as the run reads and writes it: regular files with their
  modification time and content (for a narration file the text that
  \<^verbatim>\<open>read_text(encoding="utf-8")\<close> returns, for an audio file its samples; a narration
  file that is not valid UTF-8 is outside the model). \<open>now\<close> is the clock reading
  stamped on a file written by the run, and \<open>tts_log\<close> lists the texts handed to the
  Kokoro pipeline, one entry per call.
  Directory creation (\<^verbatim>\<open>mkdir(parents=True, exist_ok=True)\<close>) does not change any
  regular file and is not represented.
\<close>

record file_rec =
  st_mtime :: rat
  data :: ustring

record world =
  files :: "path \<rightharpoonup> file_rec"
  now :: rat
  tts_log :: "ustring list"

text \<open>The synthesis collaborator: whether the \<^verbatim>\<open>kokoro\<close> package (with numpy and
  soundfile) can be imported, and the audio chunks the pipeline yields for a text.\<close>

record tts =
  kokoro_installed :: bool
  kokoro_pipeline :: "ustring \<Rightarrow> int list list"

definition run_kokoro_tts :: "tts \<Rightarrow> world \<Rightarrow> path \<Rightarrow> path \<Rightarrow> (error \<times> world) + world" where
  "run_kokoro_tts t w input_txt output_wav =
     (if \<not> kokoro_installed t then Inl (KokoroMissing, w)
      else case files w input_txt of
        None \<Rightarrow> Inl (FileNotFound input_txt, w)
      | Some src \<Rightarrow>
          (let text = py_strip (data src) in
           if text = [] then Inl (EmptyNarration (path_name input_txt), w)
           else
             (let audio_chunks = kokoro_pipeline t text;
                  w1 = w\<lparr>tts_log := tts_log w @ [text]\<rparr>
              in if audio_chunks = [] then Inl (NoAudioGenerated (path_name input_txt), w1)
                 else Inr (w1\<lparr>files := (files w1)(output_wav \<mapsto>
                             \<lparr>st_mtime = now w1, data = concat audio_chunks\<rparr>)\<rparr>))))"

text \<open>The directories \<^verbatim>\<open>main\<close> derives from its two positional arguments
  (lines 308-318); \<open>subfolder_name\<close> is taken to be a single path component.\<close>

record layout =
  screenshot_dir :: path
  intro_dir :: path
  segment_dir :: path
  generated_wav_dir :: path
  intro_generated_wav_dir :: path

definition make_layout :: "path \<Rightarrow> string \<Rightarrow> layout" where
  "make_layout base_path subfolder_name =
     (let sd = base_path @ [''screenshots'', subfolder_name];
          idir = path_parent sd @ [''intro''];
          output_dir = base_path @ [''test-videos'']
      in \<lparr>screenshot_dir = sd,
          intro_dir = idir,
          segment_dir = output_dir @ [subfolder_name @ ''-segments''],
          generated_wav_dir = sd @ [''generated-wav''],
          intro_generated_wav_dir = idir @ [''generated-wav'']\<rparr>)"

definition wav_path_of :: "layout \<Rightarrow> bool \<Rightarrow> path \<Rightarrow> path" where
  "wav_path_of L use_intro f =
     (let wav_cache_dir =
            (if use_intro \<and> path_parent f = intro_dir L then intro_generated_wav_dir L
             else generated_wav_dir L)
      in wav_cache_dir @ [stem f @ ''.wav''])"

text \<open>The test of lines 410-413: \<^verbatim>\<open>wav_path.exists() and
  wav_path.stat().st_mtime > f.stat().st_mtime\<close>; \<^verbatim>\<open>f.stat()\<close> raises when \<open>f\<close>
  is missing.\<close>

definition cache_check :: "world \<Rightarrow> path \<Rightarrow> path \<Rightarrow> error + bool" where
  "cache_check w wav_path f =
     (case files w wav_path of
        None \<Rightarrow> Inr False
      | Some cached \<Rightarrow>
          (case files w f of
             None \<Rightarrow> Inl (FileNotFound f)
           | Some src \<Rightarrow> Inr (st_mtime cached > st_mtime src)))"

text \<open>The body of the conversion loop for one \<^verbatim>\<open>.txt\<close> item (lines 400-422): the
  world after it and the path that replaces the item.\<close>

definition convert_item ::
  "tts \<Rightarrow> layout \<Rightarrow> bool \<Rightarrow> world \<Rightarrow> path \<Rightarrow> (error \<times> world) + (world \<times> path)" where
  "convert_item t L use_intro w f =
     (let wav_path = wav_path_of L use_intro f in
      case cache_check w wav_path f of
        Inl err \<Rightarrow> Inl (err, w)
      | Inr True \<Rightarrow> Inr (w, wav_path)
      | Inr False \<Rightarrow>
          (case run_kokoro_tts t w f wav_path of
             Inl err \<Rightarrow> Inl err
           | Inr w' \<Rightarrow> Inr (w', wav_path)))"

text \<open>The loop of lines 397-425, with its accumulators \<^verbatim>\<open>converted_files\<close> and
  \<^verbatim>\<open>audio_count\<close>.\<close>

fun convert_files ::
  "tts \<Rightarrow> layout \<Rightarrow> bool \<Rightarrow> world \<Rightarrow> path list \<Rightarrow> nat \<Rightarrow> path list
     \<Rightarrow> (error \<times> world) + (world \<times> path list \<times> nat)" where
  "convert_files t L use_intro w converted_files audio_count [] =
     Inr (w, converted_files, audio_count)"
| "convert_files t L use_intro w converted_files audio_count (f # rest) =
     (if suffix f = ''.txt'' then
        (case convert_item t L use_intro w f of
           Inl err \<Rightarrow> Inl err
         | Inr (w', wav_path) \<Rightarrow>
             convert_files t L use_intro w' (converted_files @ [wav_path]) (audio_count + 1) rest)
      else convert_files t L use_intro w (converted_files @ [f]) audio_count rest)"

section \<open>Collecting the media files and the run as a whole (main, lines 339-503)\<close>

text \<open>What the run sees of the directories: the entries \<^verbatim>\<open>iterdir()\<close> yields (in any
  order), and the tests \<^verbatim>\<open>is_file()\<close> and \<^verbatim>\<open>is_dir()\<close>.\<close>

record fsenv =
  iterdir :: "path \<Rightarrow> path list"
  is_file :: "path \<Rightarrow> bool"
  is_dir :: "path \<Rightarrow> bool"

definition valid_extensions :: "string list" where
  "valid_extensions = [''.png'', ''.mp3'', ''.wav'', ''.txt'']"

definition catalogued :: "fsenv \<Rightarrow> path \<Rightarrow> bool" where
  "catalogued fe f =
     (is_file fe f \<and> py_lower (suffix f) \<in> set valid_extensions \<and> ''generated-wav'' \<notin> set f)"

text \<open>\<^verbatim>\<open>sorted(...)\<close> on paths compares their components, each as a string, which is the
  lexicographic order on \<open>string list\<close>.\<close>

definition collect :: "fsenv \<Rightarrow> path \<Rightarrow> path list" where
  "collect fe d = sort (filter (catalogued fe) (iterdir fe d))"

definition image_count :: "path list \<Rightarrow> nat" where
  "image_count media_files = length (filter (\<lambda>f. suffix f = ''.png'') media_files)"

definition audio_count :: "path list \<Rightarrow> nat" where
  "audio_count media_files = length (filter (\<lambda>f. suffix f \<in> {''.mp3'', ''.wav''}) media_files)"

definition tts_count :: "path list \<Rightarrow> nat" where
  "tts_count media_files = length (filter (\<lambda>f. suffix f = ''.txt'') media_files)"

record run_result =
  res_world :: world
  res_media_files :: "path list"
  res_audio_count :: nat
  res_build :: build_state

text \<open>\<^verbatim>\<open>main\<close> from the collection of the media files to the end of the segment loop,
  for a run whose arguments, tools and screenshot directory passed the checks of lines
  300-337. Removing the outputs of an earlier run (lines 431-438) is not represented.\<close>

definition main_run ::
  "env \<Rightarrow> tts \<Rightarrow> fsenv \<Rightarrow> path \<Rightarrow> string \<Rightarrow> bool \<Rightarrow> world \<Rightarrow> (error \<times> world) + run_result" where
  "main_run e t fe base_path subfolder_name no_intro w =
     (let L = make_layout base_path subfolder_name;
          main_files = collect fe (screenshot_dir L)
      in if main_files = [] then Inl (NoMediaFiles, w)
      else
        (let use_intro0 = (\<not> no_intro \<and> is_dir fe (intro_dir L));
             intro_files = (if use_intro0 then collect fe (intro_dir L) else []);
             use_intro = (use_intro0 \<and> intro_files \<noteq> []);
             media_files = intro_files @ main_files
         in if image_count media_files = 0 then Inl (NoScreenshots, w)
         else if suffix (hd media_files) \<noteq> ''.png''
           then Inl (FirstNotPng (path_name (hd media_files)), w)
         else
           (case (if tts_count media_files > 0
                  then convert_files t L use_intro w [] (audio_count media_files) media_files
                  else Inr (w, media_files, audio_count media_files)) of
              Inl err \<Rightarrow> Inl err
            | Inr (w1, media_files1, audio_count1) \<Rightarrow>
                (case build_segments e (segment_dir L) FRAME_DURATION init_state media_files1 of
                   Inl err \<Rightarrow> Inl (err, w1)
                 | Inr st \<Rightarrow>
                     Inr \<lparr>res_world = w1, res_media_files = media_files1,
                          res_audio_count = audio_count1, res_build = st\<rparr>))))"

section \<open>Measures on a list of segments\<close>

text \<open>These functions are not part of the program; the theorems use them to describe
  what a pass has built.

  A silent hold carries the fixed duration; an audio segment carries the duration its
  audio file probed to.\<close>

definition seg_ok :: "env \<Rightarrow> rat \<Rightarrow> segment \<Rightarrow> bool" where
  "seg_ok e fd s = (case s of SilentHold img out d \<Rightarrow> d = fd
                    | AudioHeld img a out d \<Rightarrow> get_audio_duration e a = Some d)"

text \<open>The same segment under another fixed duration.\<close>

definition retime :: "rat \<Rightarrow> segment \<Rightarrow> segment" where
  "retime fd' s = (case s of SilentHold img out d \<Rightarrow> SilentHold img out fd'
                   | AudioHeld img a out d \<Rightarrow> s)"

definition same_but_fd :: "rat \<Rightarrow> build_state \<Rightarrow> build_state \<Rightarrow> bool" where
  "same_but_fd fd' st st2 =
     (segment_index st2 = segment_index st \<and> current_image st2 = current_image st
      \<and> concat_lines st2 = concat_lines st \<and> segments st2 = map (retime fd') (segments st))"

text \<open>The audio segments a run of audio items builds over the held image \<open>img\<close>, starting
  at segment index \<open>i\<close>: one for each item that probes, in order.\<close>

definition held_block :: "env \<Rightarrow> path \<Rightarrow> path \<Rightarrow> nat \<Rightarrow> path list \<Rightarrow> segment list" where
  "held_block e sdir img i audios =
     map (\<lambda>(k, a). AudioHeld img a (segment_file sdir k) (the (get_audio_duration e a)))
         (enumerate i (filter (\<lambda>a. get_audio_duration e a \<noteq> None) audios))"

text \<open>The loop state after the segments \<open>new\<close> were built and written to the manifest.\<close>

definition add_segments :: "env \<Rightarrow> build_state \<Rightarrow> segment list \<Rightarrow> build_state" where
  "add_segments e st new =
     st\<lparr>segments := segments st @ new,
        total_duration := float_accumulate (total_duration st) (map seg_duration new),
        concat_lines := concat_lines st @ map (\<lambda>s. concat_line e (seg_out s)) new,
        segment_index := segment_index st + length new\<rparr>"

text \<open>Reading a decimal numeral back; it shows that different segment indices give
  different segment file names.\<close>

definition dec_value :: "string \<Rightarrow> nat" where
  "dec_value s = foldl (\<lambda>acc c. 10 * acc + (of_char c - 48)) 0 s"

text \<open>The manifest and the segment files of a state follow its segment index: line \<open>i\<close>
  of the manifest names segment file \<open>i\<close>, and every segment built was written to a
  segment file of an index below the current one.\<close>

definition indexed :: "env \<Rightarrow> path \<Rightarrow> build_state \<Rightarrow> bool" where
  "indexed e sdir st =
     (concat_lines st = map (\<lambda>i. concat_line e (segment_file sdir i)) [0..<segment_index st]
      \<and> (\<forall>s\<in>set (segments st). \<exists>i<segment_index st. seg_out s = segment_file sdir i))"

text \<open>No segment built so far was written to segment file \<open>k\<close>.\<close>

definition avoids :: "path \<Rightarrow> nat \<Rightarrow> build_state \<Rightarrow> bool" where
  "avoids sdir k st =
     (\<forall>s\<in>set (segments st). \<exists>i<segment_index st. i \<noteq> k \<and> seg_out s = segment_file sdir i)"

text \<open>What a run leaves behind apart from the file system: the error it stopped with, or
  the resolved media list, the audio count and the final state of the segment loop.\<close>

definition outcome :: "(error \<times> world) + run_result \<Rightarrow> error + (path list \<times> nat \<times> build_state)" where
  "outcome r = (case r of
                  Inl (err, w) \<Rightarrow> Inl err
                | Inr res \<Rightarrow> Inr (res_media_files res, res_audio_count res, res_build res))"

text \<open>The file system the conversion loop leaves behind, whether it finished or stopped
  with an error, and the synthesis log of that file system.\<close>

definition world_of :: "(error \<times> world) + (world \<times> path list \<times> nat) \<Rightarrow> world" where
  "world_of r = (case r of Inl (err, w) \<Rightarrow> w | Inr (w, converted, n) \<Rightarrow> w)"

definition log_of :: "(error \<times> world) + (world \<times> path list \<times> nat) \<Rightarrow> ustring list" where
  "log_of r = tts_log (world_of r)"

text \<open>The media list after the conversion loop: each \<^verbatim>\<open>.txt\<close> item replaced by its
  cache path.\<close>

definition resolved :: "layout \<Rightarrow> bool \<Rightarrow> path list \<Rightarrow> path list" where
  "resolved L use_intro fs =
     map (\<lambda>g. if suffix g = ''.txt'' then wav_path_of L use_intro g else g) fs"

text \<open>The manifest names exactly the segment files of the segments built, in order, and
  segment \<open>i\<close> was written to segment file \<open>i\<close>.\<close>

definition manifest_matches :: "env \<Rightarrow> path \<Rightarrow> build_state \<Rightarrow> bool" where
  "manifest_matches e sdir st =
     (concat_lines st = map (\<lambda>s. concat_line e (seg_out s)) (segments st)
      \<and> map seg_out (segments st) = map (segment_file sdir) [0..<segment_index st])"

text \<open>The audio items of a media list whose probe gives a duration, in order.\<close>

definition probing_audio :: "env \<Rightarrow> path list \<Rightarrow> path list" where
  "probing_audio e xs =
     filter (\<lambda>a. suffix a \<in> {''.mp3'', ''.wav''} \<and> get_audio_duration e a \<noteq> None) xs"

text \<open>The image items of a media list that are not directly followed by an item with an
  audio suffix, in order.\<close>

fun silent_items :: "path list \<Rightarrow> path list" where
  "silent_items [] = []"
| "silent_items (x # rest) =
     (if suffix x = ''.png''
         \<and> \<not> (case rest of [] \<Rightarrow> False | n # _ \<Rightarrow> suffix n \<in> {''.mp3'', ''.wav''})
      then x # silent_items rest else silent_items rest)"

text \<open>The items of a media list that are neither images nor audio for the loop.\<close>

definition other_items :: "path list \<Rightarrow> path list" where
  "other_items xs = filter (\<lambda>x. suffix x \<noteq> ''.png'' \<and> suffix x \<notin> {''.mp3'', ''.wav''}) xs"

section \<open>Concrete inputs\<close>

text \<open>A prober that prints 5.0 for \<^verbatim>\<open>002.mp3\<close>, 0.1 for \<^verbatim>\<open>003.mp3\<close>, 0.2 for
  \<^verbatim>\<open>004.mp3\<close>, the sentinel N/A for \<^verbatim>\<open>004.wav\<close>, 3.2 for \<^verbatim>\<open>005.mp3\<close> and for
  \<^verbatim>\<open>002.wav\<close>, and nothing for any other file; \<^verbatim>\<open>float()\<close> on these outputs, which
  gives the double nearest to the decimal; an encoder that always succeeds; paths printed
  with a slash before each component.\<close>

definition demo_env :: env where
  "demo_env =
     \<lparr>ffprobe_stdout = (\<lambda>p. if path_name p = ''002.mp3'' then ascii (''5.0'' @ [CHR 0x0A])
                            else if path_name p = ''003.mp3'' then ascii (''0.1'' @ [CHR 0x0A])
                            else if path_name p = ''004.mp3'' then ascii (''0.2'' @ [CHR 0x0A])
                            else if path_name p = ''004.wav'' then ascii (''N/A'' @ [CHR 0x0A])
                            else if path_name p = ''005.mp3'' \<or> path_name p = ''002.wav''
                              then ascii (''3.2'' @ [CHR 0x0A])
                            else []),
      py_float = (\<lambda>s. if s = ascii ''5.0'' then Some 5
                       else if s = ascii ''0.1'' then Some (round_double (1 / 10))
                       else if s = ascii ''0.2'' then Some (round_double (2 / 10))
                       else if s = ascii ''3.2'' then Some (round_double (16 / 5))
                       else None),
      ffmpeg_ok = (\<lambda>_. True),
      resolve_str = (\<lambda>p. concat (map (\<lambda>c. ''/'' @ c) p))\<rparr>"

definition demo_list :: "path list" where
  "demo_list = [[''shots'', ''001.png''], [''shots'', ''002.mp3''], [''shots'', ''003.png'']]"

text \<open>A project \<^verbatim>\<open>proj\<close> whose directory \<^verbatim>\<open>proj/screenshots/demo\<close> holds the given
  entries, all regular files, and which has no intro directory.\<close>

definition demo_dir :: path where
  "demo_dir = [''proj'', ''screenshots'', ''demo'']"

definition demo_fs :: "string list \<Rightarrow> fsenv" where
  "demo_fs names =
     \<lparr>iterdir = (\<lambda>d. if d = demo_dir then map (\<lambda>n. demo_dir @ [n]) names else []),
      is_file = (\<lambda>_. True),
      is_dir = (\<lambda>d. d = demo_dir)\<rparr>"

text \<open>A synthesis engine that is installed and yields one chunk for any text.\<close>

definition demo_tts :: tts where
  "demo_tts = \<lparr>kokoro_installed = True, kokoro_pipeline = (\<lambda>text. [ascii ''RIFF'' @ text])\<rparr>"

text \<open>A file system that holds the given files, with the clock at 100.\<close>

definition demo_world :: "(path \<times> file_rec) list \<Rightarrow> world" where
  "demo_world fl = \<lparr>files = map_of fl, now = 100, tts_log = []\<rparr>"

section \<open>Properties of the segment loop\<close>

lemma suffix_snoc: "suffix (d @ [n]) = name_suffix n"
  by (simp add: suffix_def path_name_def)

lemma step_png_held:
  "suffix f = ''.png'' \<Longrightarrow> suffix n \<in> {''.mp3'', ''.wav''} \<Longrightarrow>
   build_step e sdir fd st f (Some n) = Inr (st\<lparr>current_image := Some f\<rparr>)"
  by (simp add: build_step_def Let_def)

lemma step_audio_none:
  "suffix f \<in> {''.mp3'', ''.wav''} \<Longrightarrow> get_audio_duration e f = None \<Longrightarrow>
   build_step e sdir fd st f nx = Inr st"
  by (auto simp add: build_step_def Let_def)

lemma step_other:
  "suffix f \<noteq> ''.png'' \<Longrightarrow> suffix f \<notin> {''.mp3'', ''.wav''} \<Longrightarrow>
   build_step e sdir fd st f nx = Inr (write_line e sdir st)"
  by (simp add: build_step_def Let_def)

lemma float_add_0_5: "float_add 0 5 = 5"
  by code_simp

lemma float_add_5_2: "float_add 5 2 = 7"
  by code_simp

lemma build_segments_Cons_Inr:
  assumes "build_segments e sdir fd st (x # xs) = Inr st'"
  obtains st1 where
    "build_step e sdir fd st x (case xs of [] \<Rightarrow> None | n # _ \<Rightarrow> Some n) = Inr st1"
    and "build_segments e sdir fd st1 xs = Inr st'"
  using assms by (auto split: sum.splits)

text \<open>
  C1 (scenario A). For the media list 001.png, 002.mp3, 003.png in any directory, when
  probing 002.mp3 gives 5.0 seconds and both encoder runs succeed, the pass with the
  fixed duration of 2 seconds ends with exactly two segments: the audio segment holding
  001.png over 002.mp3 for 5.0 seconds, then the silent hold of 003.png for 2 seconds;
  the total duration is 7, two manifest lines are written, and 001.png gets no silent
  hold.
\<close>

theorem scenario_A:
  assumes probe: "get_audio_duration e (d @ [''002.mp3'']) = Some 5"
    and ok1: "ffmpeg_ok e (AudioHeld (d @ [''001.png'']) (d @ [''002.mp3'']) (segment_file sd 0) 5)"
    and ok2: "ffmpeg_ok e (SilentHold (d @ [''003.png'']) (segment_file sd 1) FRAME_DURATION)"
  shows "build_segments e sd FRAME_DURATION init_state
           [d @ [''001.png''], d @ [''002.mp3''], d @ [''003.png'']]
         = Inr \<lparr>segment_index = 2, current_image = Some (d @ [''003.png'']), total_duration = 7,
                concat_lines = [concat_line e (segment_file sd 0), concat_line e (segment_file sd 1)],
                segments = [AudioHeld (d @ [''001.png'']) (d @ [''002.mp3'']) (segment_file sd 0) 5,
                            SilentHold (d @ [''003.png'']) (segment_file sd 1) 2]\<rparr>"
proof -
  have s1: "suffix (d @ [''001.png'']) = ''.png''"
    and s2: "suffix (d @ [''002.mp3'']) = ''.mp3''"
    and s3: "suffix (d @ [''003.png'']) = ''.png''"
    by (simp_all add: suffix_snoc name_suffix_def rfind_dot_def)
  show ?thesis
    using probe ok1 ok2
    by (simp add: build_step_def Let_def s1 s2 s3 write_line_def init_state_def FRAME_DURATION_def
        float_add_0_5 float_add_5_2)
qed

theorem scenario_A_witness:
  "get_audio_duration demo_env [''shots'', ''002.mp3''] = Some 5
   \<and> build_segments demo_env [''out'', ''segs''] FRAME_DURATION init_state
           [[''shots'', ''001.png''], [''shots'', ''002.mp3''], [''shots'', ''003.png'']]
         = Inr \<lparr>segment_index = 2, current_image = Some [''shots'', ''003.png''], total_duration = 7,
                concat_lines = [''file '' @ [CHR 0x27] @ ''/out/segs/segment-0000.mp4'' @ [CHR 0x27, CHR 0x0A],
                                ''file '' @ [CHR 0x27] @ ''/out/segs/segment-0001.mp4'' @ [CHR 0x27, CHR 0x0A]],
                segments = [AudioHeld [''shots'', ''001.png''] [''shots'', ''002.mp3'']
                              [''out'', ''segs'', ''segment-0000.mp4''] 5,
                            SilentHold [''shots'', ''003.png'']
                              [''out'', ''segs'', ''segment-0001.mp4''] 2]\<rparr>"
proof -
  have probe: "get_audio_duration demo_env ([''shots''] @ [''002.mp3'']) = Some 5"
    by code_simp
  have ok1: "ffmpeg_ok demo_env (AudioHeld ([''shots''] @ [''001.png'']) ([''shots''] @ [''002.mp3''])
               (segment_file [''out'', ''segs''] 0) 5)"
    by (simp add: demo_env_def)
  have ok2: "ffmpeg_ok demo_env (SilentHold ([''shots''] @ [''003.png''])
               (segment_file [''out'', ''segs''] 1) FRAME_DURATION)"
    by (simp add: demo_env_def)
  have f0: "segment_file [''out'', ''segs''] 0 = [''out'', ''segs'', ''segment-0000.mp4'']"
    by code_simp
  have f1: "segment_file [''out'', ''segs''] 1 = [''out'', ''segs'', ''segment-0001.mp4'']"
    by code_simp
  have l0: "concat_line demo_env [''out'', ''segs'', ''segment-0000.mp4'']
            = ''file '' @ [CHR 0x27] @ ''/out/segs/segment-0000.mp4'' @ [CHR 0x27, CHR 0x0A]"
    by code_simp
  have l1: "concat_line demo_env [''out'', ''segs'', ''segment-0001.mp4'']
            = ''file '' @ [CHR 0x27] @ ''/out/segs/segment-0001.mp4'' @ [CHR 0x27, CHR 0x0A]"
    by code_simp
  show ?thesis
    using probe scenario_A [OF probe ok1 ok2] by (simp only: append.simps f0 f1 l0 l1)
qed

text \<open>Every audio segment of a pass comes from an item whose probe gave a duration.\<close>

lemma step_audio_probed:
  assumes "build_step e sdir fd st f nx = Inr st'"
    and "\<forall>s\<in>set (segments st). \<forall>a. audio_of s = Some a \<longrightarrow> get_audio_duration e a \<noteq> None"
  shows "\<forall>s\<in>set (segments st'). \<forall>a. audio_of s = Some a \<longrightarrow> get_audio_duration e a \<noteq> None"
  using assms
  by (auto simp add: build_step_def Let_def write_line_def split: if_splits option.splits)

lemma build_audio_probed:
  assumes "build_segments e sdir fd st xs = Inr st'"
    and "\<forall>s\<in>set (segments st). \<forall>a. audio_of s = Some a \<longrightarrow> get_audio_duration e a \<noteq> None"
  shows "\<forall>s\<in>set (segments st'). \<forall>a. audio_of s = Some a \<longrightarrow> get_audio_duration e a \<noteq> None"
  using assms
proof (induction xs arbitrary: st)
  case Nil
  then show ?case by simp
next
  case (Cons x xs)
  from Cons.prems(1) obtain st1 where
    s1: "build_step e sdir fd st x (case xs of [] \<Rightarrow> None | n # _ \<Rightarrow> Some n) = Inr st1"
    and r: "build_segments e sdir fd st1 xs = Inr st'"
    by (rule build_segments_Cons_Inr)
  from step_audio_probed [OF s1 Cons.prems(2)] Cons.IH [OF r] show ?case by blast
qed

text \<open>What one iteration adds: at most one segment, an audio segment exactly for an
  audio item that probes and a silent hold exactly for an image whose lookahead is not an
  audio item; a manifest line and an index for each segment and for each item that is
  neither image nor audio.\<close>

lemma step_contribution:
  assumes "build_step e sdir fd st f nx = Inr st'"
  shows "\<exists>new. segments st' = segments st @ new
       \<and> map seg_audio (filter is_AudioHeld new) = probing_audio e [f]
       \<and> map seg_image (filter is_SilentHold new)
           = (if suffix f = ''.png''
                 \<and> \<not> (case nx of None \<Rightarrow> False | Some n \<Rightarrow> suffix n \<in> {''.mp3'', ''.wav''})
              then [f] else [])
       \<and> (\<forall>s\<in>set new. seg_ok e fd s)
       \<and> total_duration st' = float_accumulate (total_duration st) (map seg_duration new)
       \<and> segment_index st' = segment_index st + length new + length (other_items [f])
       \<and> length (concat_lines st') = length (concat_lines st) + length new + length (other_items [f])"
  using assms
  by (auto simp add: build_step_def Let_def write_line_def probing_audio_def other_items_def
      seg_ok_def float_accumulate_def split: if_splits option.splits)

lemma probing_audio_Cons: "probing_audio e (x # xs) = probing_audio e [x] @ probing_audio e xs"
  by (simp add: probing_audio_def)

lemma probing_audio_append: "probing_audio e (xs @ ys) = probing_audio e xs @ probing_audio e ys"
  by (simp add: probing_audio_def)

lemma other_items_Cons: "other_items (x # xs) = other_items [x] @ other_items xs"
  by (simp add: other_items_def)

lemma build_contribution:
  assumes "build_segments e sdir fd st xs = Inr st'"
  shows "\<exists>new. segments st' = segments st @ new
       \<and> map seg_audio (filter is_AudioHeld new) = probing_audio e xs
       \<and> map seg_image (filter is_SilentHold new) = silent_items xs
       \<and> (\<forall>s\<in>set new. seg_ok e fd s)
       \<and> total_duration st' = float_accumulate (total_duration st) (map seg_duration new)
       \<and> segment_index st' = segment_index st + length new + length (other_items xs)
       \<and> length (concat_lines st') = length (concat_lines st) + length new + length (other_items xs)"
  using assms
proof (induction xs arbitrary: st)
  case Nil
  then show ?case by (simp add: probing_audio_def other_items_def float_accumulate_def)
next
  case (Cons x xs)
  let ?nx = "case xs of [] \<Rightarrow> None | n # _ \<Rightarrow> Some n"
  from Cons.prems obtain st1 where
    s1: "build_step e sdir fd st x ?nx = Inr st1"
    and r: "build_segments e sdir fd st1 xs = Inr st'"
    by (rule build_segments_Cons_Inr)
  from step_contribution [OF s1] obtain n1 where
    a1: "segments st1 = segments st @ n1"
    and a2: "map seg_audio (filter is_AudioHeld n1) = probing_audio e [x]"
    and a3: "map seg_image (filter is_SilentHold n1)
           = (if suffix x = ''.png''
                 \<and> \<not> (case ?nx of None \<Rightarrow> False | Some n \<Rightarrow> suffix n \<in> {''.mp3'', ''.wav''})
              then [x] else [])"
    and a4: "\<forall>s\<in>set n1. seg_ok e fd s"
    and a7: "total_duration st1 = float_accumulate (total_duration st) (map seg_duration n1)"
    and a5: "segment_index st1 = segment_index st + length n1 + length (other_items [x])"
    and a6: "length (concat_lines st1) = length (concat_lines st) + length n1 + length (other_items [x])"
    by blast
  from Cons.IH [OF r] obtain n2 where
    b1: "segments st' = segments st1 @ n2"
    and b2: "map seg_audio (filter is_AudioHeld n2) = probing_audio e xs"
    and b3: "map seg_image (filter is_SilentHold n2) = silent_items xs"
    and b4: "\<forall>s\<in>set n2. seg_ok e fd s"
    and b7: "total_duration st' = float_accumulate (total_duration st1) (map seg_duration n2)"
    and b5: "segment_index st' = segment_index st1 + length n2 + length (other_items xs)"
    and b6: "length (concat_lines st') = length (concat_lines st1) + length n2 + length (other_items xs)"
    by blast
  have nx: "(case ?nx of None \<Rightarrow> False | Some n \<Rightarrow> suffix n \<in> {''.mp3'', ''.wav''})
            = (case xs of [] \<Rightarrow> False | n # _ \<Rightarrow> suffix n \<in> {''.mp3'', ''.wav''})"
    by (cases xs) simp_all
  have c1: "segments st' = segments st @ (n1 @ n2)" using a1 b1 by simp
  have c2: "map seg_audio (filter is_AudioHeld (n1 @ n2)) = probing_audio e (x # xs)"
    using a2 b2 probing_audio_Cons [of e x xs] by simp
  have c3: "map seg_image (filter is_SilentHold (n1 @ n2)) = silent_items (x # xs)"
    using a3 b3 by (simp only: nx) simp
  have c4: "\<forall>s\<in>set (n1 @ n2). seg_ok e fd s" using a4 b4 by auto
  have c5: "segment_index st' = segment_index st + length (n1 @ n2) + length (other_items (x # xs))"
    using a5 b5 other_items_Cons [of x xs] by simp
  have c6: "length (concat_lines st')
            = length (concat_lines st) + length (n1 @ n2) + length (other_items (x # xs))"
    using a6 b6 other_items_Cons [of x xs] by simp
  have c7: "total_duration st' = float_accumulate (total_duration st) (map seg_duration (n1 @ n2))"
    using a7 b7 by (simp add: float_accumulate_def)
  from c1 c2 c3 c4 c5 c6 c7 show ?case by blast
qed


text \<open>
  C3. An audio item (suffix .mp3 or .wav) whose probe output is empty, is the sentinel
  N/A, or is rejected by \<^verbatim>\<open>float()\<close> leaves the loop state as it was: no segment, no
  manifest line, no change of the segment index and no error, whatever the state and the
  lookahead, and the loop goes on with the remaining items from that same state. For
  every finished pass over a list that contains the item: the audio segments are, in
  order, exactly those of the audio items before and after it that probe; the silent
  holds are exactly those of the images not directly followed by an item with an audio
  suffix (an image directly before the failed item gets none, as before any audio item);
  every audio segment carries the probed duration of its item; the segment index counts
  the segments built and the items that are neither image nor audio, and the manifest has
  as many lines; and no audio segment is built from the failed item.
\<close>

theorem probe_failure_is_skipped:
  assumes audio: "suffix f \<in> {''.mp3'', ''.wav''}"
    and bad: "py_strip (ffprobe_stdout e f) = [] \<or> py_strip (ffprobe_stdout e f) = ascii ''N/A''
              \<or> py_float e (py_strip (ffprobe_stdout e f)) = None"
  shows "build_step e sdir fd st f nx = Inr st
       \<and> build_segments e sdir fd st (f # rest) = build_segments e sdir fd st rest
       \<and> (\<forall>pre post st'. build_segments e sdir fd init_state (pre @ f # post) = Inr st'
             \<longrightarrow> map seg_audio (filter is_AudioHeld (segments st'))
                   = probing_audio e pre @ probing_audio e post
               \<and> map seg_image (filter is_SilentHold (segments st')) = silent_items (pre @ f # post)
               \<and> (\<forall>s\<in>set (segments st'). seg_ok e fd s)
               \<and> segment_index st' = length (segments st') + length (other_items (pre @ post))
               \<and> length (concat_lines st') = segment_index st'
               \<and> (\<forall>s\<in>set (segments st'). audio_of s \<noteq> Some f))"
proof -
  from bad have none: "get_audio_duration e f = None"
    by (auto simp add: get_audio_duration_def Let_def)
  have step: "\<And>nx. build_step e sdir fd st f nx = Inr st"
    using audio none by (rule step_audio_none)
  have pf: "probing_audio e [f] = []" using none by (simp add: probing_audio_def)
  have whole: "map seg_audio (filter is_AudioHeld (segments st'))
                   = probing_audio e pre @ probing_audio e post
               \<and> map seg_image (filter is_SilentHold (segments st')) = silent_items (pre @ f # post)
               \<and> (\<forall>s\<in>set (segments st'). seg_ok e fd s)
               \<and> segment_index st' = length (segments st') + length (other_items (pre @ post))
               \<and> length (concat_lines st') = segment_index st'
               \<and> (\<forall>s\<in>set (segments st'). audio_of s \<noteq> Some f)"
    if b: "build_segments e sdir fd init_state (pre @ f # post) = Inr st'" for pre post st'
  proof -
    from build_contribution [OF b] obtain new where
      n1: "segments st' = new"
      and n2: "map seg_audio (filter is_AudioHeld new) = probing_audio e (pre @ f # post)"
      and n3: "map seg_image (filter is_SilentHold new) = silent_items (pre @ f # post)"
      and n4: "\<forall>s\<in>set new. seg_ok e fd s"
      and n5: "segment_index st' = length new + length (other_items (pre @ f # post))"
      and n6: "length (concat_lines st') = length new + length (other_items (pre @ f # post))"
      by (auto simp add: init_state_def)
    have pa: "probing_audio e (pre @ f # post) = probing_audio e pre @ probing_audio e post"
      using pf probing_audio_append [of e pre "f # post"] probing_audio_Cons [of e f post] by simp
    have oi: "other_items (pre @ f # post) = other_items (pre @ post)"
      using audio by (auto simp add: other_items_def)
    have "\<forall>s\<in>set (segments init_state). \<forall>a. audio_of s = Some a \<longrightarrow> get_audio_duration e a \<noteq> None"
      by (simp add: init_state_def)
    from build_audio_probed [OF b this] none
    have na: "\<forall>s\<in>set (segments st'). audio_of s \<noteq> Some f" by auto
    from n1 n2 n3 n4 n5 n6 pa oi na show ?thesis by simp
  qed
  from step whole show ?thesis by (simp add: step)
qed

theorem probe_failure_is_skipped_witness:
  "suffix [''shots'', ''004.wav''] \<in> {''.mp3'', ''.wav''}
   \<and> py_strip (ffprobe_stdout demo_env [''shots'', ''004.wav'']) = ascii ''N/A''
   \<and> build_step demo_env [''out''] 2 init_state [''shots'', ''004.wav''] (Some [''shots'', ''005.png''])
       = Inr init_state
   \<and> build_segments demo_env [''out''] 2 init_state [[''shots'', ''004.wav''], [''shots'', ''005.png'']]
       = build_segments demo_env [''out''] 2 init_state [[''shots'', ''005.png'']]
   \<and> build_segments demo_env [''out''] 2 init_state
         ([[''shots'', ''001.png''], [''shots'', ''002.mp3'']]
          @ [''shots'', ''004.wav''] # [[''shots'', ''005.mp3''], [''shots'', ''006.png'']])
       = Inr \<lparr>segment_index = 3, current_image = Some [''shots'', ''006.png''],
              total_duration = float_add (float_add 5 (round_double (16 / 5))) 2,
              concat_lines = [''file '' @ [CHR 0x27] @ ''/out/segment-0000.mp4'' @ [CHR 0x27, CHR 0x0A],
                              ''file '' @ [CHR 0x27] @ ''/out/segment-0001.mp4'' @ [CHR 0x27, CHR 0x0A],
                              ''file '' @ [CHR 0x27] @ ''/out/segment-0002.mp4'' @ [CHR 0x27, CHR 0x0A]],
              segments = [AudioHeld [''shots'', ''001.png''] [''shots'', ''002.mp3'']
                            [''out'', ''segment-0000.mp4''] 5,
                          AudioHeld [''shots'', ''001.png''] [''shots'', ''005.mp3'']
                            [''out'', ''segment-0001.mp4''] (round_double (16 / 5)),
                          SilentHold [''shots'', ''006.png''] [''out'', ''segment-0002.mp4''] 2]\<rparr>
   \<and> [[''shots'', ''002.mp3''], [''shots'', ''005.mp3'']]
       = probing_audio demo_env [[''shots'', ''001.png''], [''shots'', ''002.mp3'']]
         @ probing_audio demo_env [[''shots'', ''005.mp3''], [''shots'', ''006.png'']]"
proof -
  let ?f = "[''shots'', ''004.wav'']"
  let ?pre = "[[''shots'', ''001.png''], [''shots'', ''002.mp3'']]"
  let ?post = "[[''shots'', ''005.mp3''], [''shots'', ''006.png'']]"
  let ?st = "\<lparr>segment_index = 3, current_image = Some [''shots'', ''006.png''],
              total_duration = float_add (float_add 5 (round_double (16 / 5))) 2,
              concat_lines = [''file '' @ [CHR 0x27] @ ''/out/segment-0000.mp4'' @ [CHR 0x27, CHR 0x0A],
                              ''file '' @ [CHR 0x27] @ ''/out/segment-0001.mp4'' @ [CHR 0x27, CHR 0x0A],
                              ''file '' @ [CHR 0x27] @ ''/out/segment-0002.mp4'' @ [CHR 0x27, CHR 0x0A]],
              segments = [AudioHeld [''shots'', ''001.png''] [''shots'', ''002.mp3'']
                            [''out'', ''segment-0000.mp4''] 5,
                          AudioHeld [''shots'', ''001.png''] [''shots'', ''005.mp3'']
                            [''out'', ''segment-0001.mp4''] (round_double (16 / 5)),
                          SilentHold [''shots'', ''006.png''] [''out'', ''segment-0002.mp4''] 2]\<rparr>"
  have a: "suffix ?f \<in> {''.mp3'', ''.wav''}" by code_simp
  have b: "py_strip (ffprobe_stdout demo_env ?f) = ascii ''N/A''" by code_simp
  then have c: "py_strip (ffprobe_stdout demo_env ?f) = []
      \<or> py_strip (ffprobe_stdout demo_env ?f) = ascii ''N/A''
      \<or> py_float demo_env (py_strip (ffprobe_stdout demo_env ?f)) = None"
    by simp
  have run: "build_segments demo_env [''out''] 2 init_state (?pre @ ?f # ?post) = Inr ?st"
    by code_simp
  note th = probe_failure_is_skipped [OF a c, where sdir = "[''out'']" and fd = 2
        and st = init_state and nx = "Some [''shots'', ''005.png'']"
        and rest = "[[''shots'', ''005.png'']]"]
  from th run
  have "map seg_audio (filter is_AudioHeld (segments ?st))
          = probing_audio demo_env ?pre @ probing_audio demo_env ?post"
    by blast
  then have pa: "[[''shots'', ''002.mp3''], [''shots'', ''005.mp3'']]
          = probing_audio demo_env ?pre @ probing_audio demo_env ?post"
    by simp
  from a b th run pa show ?thesis by blast
qed

lemma step_retime:
  assumes "build_step e sdir fd st f nx = Inr a"
    and "build_step e sdir fd' st2 f nx = Inr b"
    and "same_but_fd fd' st st2"
  shows "same_but_fd fd' a b"
  using assms
  by (auto simp add: build_step_def Let_def write_line_def same_but_fd_def retime_def
      split: if_splits option.splits)

lemma build_retime:
  assumes "build_segments e sdir fd st xs = Inr a"
    and "build_segments e sdir fd' st2 xs = Inr b"
    and "same_but_fd fd' st st2"
  shows "same_but_fd fd' a b"
  using assms
proof (induction xs arbitrary: st st2)
  case Nil
  then show ?case by simp
next
  case (Cons x xs)
  from Cons.prems(1) obtain st1 where
    s1: "build_step e sdir fd st x (case xs of [] \<Rightarrow> None | n # _ \<Rightarrow> Some n) = Inr st1"
    and r1: "build_segments e sdir fd st1 xs = Inr a"
    by (rule build_segments_Cons_Inr)
  from Cons.prems(2) obtain st3 where
    s2: "build_step e sdir fd' st2 x (case xs of [] \<Rightarrow> None | n # _ \<Rightarrow> Some n) = Inr st3"
    and r2: "build_segments e sdir fd' st3 xs = Inr b"
    by (rule build_segments_Cons_Inr)
  from step_retime [OF s1 s2 Cons.prems(3)] have "same_but_fd fd' st1 st3" .
  from Cons.IH [OF r1 r2 this] show ?case .
qed

lemma audio_filter_retime:
  "filter is_AudioHeld (map (retime fd') segs) = filter is_AudioHeld segs"
  by (induction segs) (auto simp add: retime_def split: segment.splits)

lemma seg_ok_sel:
  "seg_ok e fd s \<Longrightarrow>
     (is_SilentHold s \<longrightarrow> seg_duration s = fd)
   \<and> (is_AudioHeld s \<longrightarrow> get_audio_duration e (seg_audio s) = Some (seg_duration s))"
  by (cases s) (simp_all add: seg_ok_def)


lemma exact_sum_decomposition:
  assumes "\<forall>s\<in>set segs. seg_ok e fd s"
  shows "sum_list (map seg_duration segs)
         = of_nat (length (filter is_SilentHold segs)) * fd
           + sum_list (map seg_duration (filter is_AudioHeld segs))"
  using assms
proof (induction segs)
  case Nil
  then show ?case by simp
next
  case (Cons s segs)
  then show ?case
    by (cases s) (simp_all add: seg_ok_def algebra_simps)
qed

text \<open>
  C5, as the code has it. When the pass over a media list finishes, the accumulated
  total duration is the float sum, taken in emission order from 0.0, of the durations of
  the segments built: the fixed duration for every silent hold and the probed duration
  for every audio segment, so that these addends add up exactly to the fixed duration
  times the number of silent holds plus the sum of the probed durations. The audio
  segments are those of the audio items that probe and the silent holds those of the
  images not directly followed by an audio item; items that were skipped add nothing. A
  finished pass over the same list with another fixed duration builds the same segments
  except for the duration of the silent holds. (The float total need not equal the sum
  of the two separate sums: see the counterexample below.)
\<close>

theorem total_duration_accumulates:
  assumes run: "build_segments e sdir fd init_state media_files = Inr st"
  shows "total_duration st = float_accumulate 0 (map seg_duration (segments st))
       \<and> sum_list (map seg_duration (segments st))
           = of_nat (length (filter is_SilentHold (segments st))) * fd
             + sum_list (map seg_duration (filter is_AudioHeld (segments st)))
       \<and> (\<forall>s\<in>set (segments st).
            (is_SilentHold s \<longrightarrow> seg_duration s = fd)
          \<and> (is_AudioHeld s \<longrightarrow> get_audio_duration e (seg_audio s) = Some (seg_duration s)))
       \<and> map seg_audio (filter is_AudioHeld (segments st)) = probing_audio e media_files
       \<and> map seg_image (filter is_SilentHold (segments st)) = silent_items media_files
       \<and> (\<forall>fd' st'. build_segments e sdir fd' init_state media_files = Inr st'
            \<longrightarrow> segments st' = map (retime fd') (segments st)
              \<and> filter is_AudioHeld (segments st') = filter is_AudioHeld (segments st))"
proof -
  from build_contribution [OF run] have
    n2: "map seg_audio (filter is_AudioHeld (segments st)) = probing_audio e media_files"
    and n3: "map seg_image (filter is_SilentHold (segments st)) = silent_items media_files"
    and n4: "\<forall>s\<in>set (segments st). seg_ok e fd s"
    and n7: "total_duration st = float_accumulate 0 (map seg_duration (segments st))"
    by (auto simp add: init_state_def)
  from n4 have p2: "sum_list (map seg_duration (segments st))
           = of_nat (length (filter is_SilentHold (segments st))) * fd
             + sum_list (map seg_duration (filter is_AudioHeld (segments st)))"
    by (rule exact_sum_decomposition)
  have p3: "\<forall>s\<in>set (segments st).
            (is_SilentHold s \<longrightarrow> seg_duration s = fd)
          \<and> (is_AudioHeld s \<longrightarrow> get_audio_duration e (seg_audio s) = Some (seg_duration s))"
    using n4 seg_ok_sel by blast
  have p4: "segments st' = map (retime fd') (segments st)
              \<and> filter is_AudioHeld (segments st') = filter is_AudioHeld (segments st)"
    if run': "build_segments e sdir fd' init_state media_files = Inr st'" for fd' st'
  proof -
    have "same_but_fd fd' init_state init_state"
      by (simp add: same_but_fd_def init_state_def)
    from build_retime [OF run run' this]
    have segs: "segments st' = map (retime fd') (segments st)"
      by (simp add: same_but_fd_def)
    then show ?thesis by (simp add: audio_filter_retime)
  qed
  from n7 p2 p3 n2 n3 p4 show ?thesis by blast
qed

theorem total_duration_accumulates_witness:
  "build_segments demo_env [''out''] 2 init_state demo_list
     = Inr \<lparr>segment_index = 2, current_image = Some [''shots'', ''003.png''], total_duration = 7,
            concat_lines = [''file '' @ [CHR 0x27] @ ''/out/segment-0000.mp4'' @ [CHR 0x27, CHR 0x0A],
                            ''file '' @ [CHR 0x27] @ ''/out/segment-0001.mp4'' @ [CHR 0x27, CHR 0x0A]],
            segments = [AudioHeld [''shots'', ''001.png''] [''shots'', ''002.mp3'']
                          [''out'', ''segment-0000.mp4''] 5,
                        SilentHold [''shots'', ''003.png''] [''out'', ''segment-0001.mp4''] 2]\<rparr>
   \<and> build_segments demo_env [''out''] 3 init_state demo_list
     = Inr \<lparr>segment_index = 2, current_image = Some [''shots'', ''003.png''], total_duration = 8,
            concat_lines = [''file '' @ [CHR 0x27] @ ''/out/segment-0000.mp4'' @ [CHR 0x27, CHR 0x0A],
                            ''file '' @ [CHR 0x27] @ ''/out/segment-0001.mp4'' @ [CHR 0x27, CHR 0x0A]],
            segments = [AudioHeld [''shots'', ''001.png''] [''shots'', ''002.mp3'']
                          [''out'', ''segment-0000.mp4''] 5,
                        SilentHold [''shots'', ''003.png''] [''out'', ''segment-0001.mp4''] 3]\<rparr>
   \<and> (7::rat) = float_accumulate 0 [5, 2]
   \<and> [AudioHeld [''shots'', ''001.png''] [''shots'', ''002.mp3''] [''out'', ''segment-0000.mp4''] 5,
       SilentHold [''shots'', ''003.png''] [''out'', ''segment-0001.mp4''] 3]
      = map (retime 3)
          [AudioHeld [''shots'', ''001.png''] [''shots'', ''002.mp3''] [''out'', ''segment-0000.mp4''] 5,
           SilentHold [''shots'', ''003.png''] [''out'', ''segment-0001.mp4''] 2]"
proof -
  let ?st2 = "\<lparr>segment_index = 2, current_image = Some [''shots'', ''003.png''], total_duration = 7,
            concat_lines = [''file '' @ [CHR 0x27] @ ''/out/segment-0000.mp4'' @ [CHR 0x27, CHR 0x0A],
                            ''file '' @ [CHR 0x27] @ ''/out/segment-0001.mp4'' @ [CHR 0x27, CHR 0x0A]],
            segments = [AudioHeld [''shots'', ''001.png''] [''shots'', ''002.mp3'']
                          [''out'', ''segment-0000.mp4''] 5,
                        SilentHold [''shots'', ''003.png''] [''out'', ''segment-0001.mp4''] 2]\<rparr>"
  let ?st3 = "\<lparr>segment_index = 2, current_image = Some [''shots'', ''003.png''], total_duration = 8,
            concat_lines = [''file '' @ [CHR 0x27] @ ''/out/segment-0000.mp4'' @ [CHR 0x27, CHR 0x0A],
                            ''file '' @ [CHR 0x27] @ ''/out/segment-0001.mp4'' @ [CHR 0x27, CHR 0x0A]],
            segments = [AudioHeld [''shots'', ''001.png''] [''shots'', ''002.mp3'']
                          [''out'', ''segment-0000.mp4''] 5,
                        SilentHold [''shots'', ''003.png''] [''out'', ''segment-0001.mp4''] 3]\<rparr>"
  have r2: "build_segments demo_env [''out''] 2 init_state demo_list = Inr ?st2"
    by code_simp
  have r3: "build_segments demo_env [''out''] 3 init_state demo_list = Inr ?st3"
    by code_simp
  note th = total_duration_accumulates [OF r2]
  from th have "total_duration ?st2 = float_accumulate 0 (map seg_duration (segments ?st2))"
    by blast
  then have a: "(7::rat) = float_accumulate 0 [5, 2]" by simp
  from th r3 have "segments ?st3 = map (retime 3) (segments ?st2)" by blast
  then have b: "[AudioHeld [''shots'', ''001.png''] [''shots'', ''002.mp3''] [''out'', ''segment-0000.mp4''] 5,
       SilentHold [''shots'', ''003.png''] [''out'', ''segment-0001.mp4''] 3]
      = map (retime 3)
          [AudioHeld [''shots'', ''001.png''] [''shots'', ''002.mp3''] [''out'', ''segment-0000.mp4''] 5,
           SilentHold [''shots'', ''003.png''] [''out'', ''segment-0001.mp4''] 2]"
    by simp
  from r2 r3 a b show ?thesis by blast
qed

text \<open>
  C5 as stated fails. For 001.png, 002.png, 003.mp3 (0.1 s), 004.mp3 (0.2 s) the pass
  builds the silent hold of 001.png and the two audio segments over 002.png; the total
  it accumulates, ((0.0 + 2) + 0.1) + 0.2 in floats, is 2.3000000000000003, which is
  neither the exact sum of the fixed duration and the two probed durations nor the float
  sum of the silent holds plus the float sum of the audio durations (2.3).
\<close>

theorem total_duration_counterexample:
  "build_segments demo_env [''out''] 2 init_state
     [[''shots'', ''001.png''], [''shots'', ''002.png''], [''shots'', ''003.mp3''], [''shots'', ''004.mp3'']]
     = Inr \<lparr>segment_index = 3, current_image = Some [''shots'', ''002.png''],
            total_duration = 5179139571476071 / 2251799813685248,
            concat_lines = [''file '' @ [CHR 0x27] @ ''/out/segment-0000.mp4'' @ [CHR 0x27, CHR 0x0A],
                            ''file '' @ [CHR 0x27] @ ''/out/segment-0001.mp4'' @ [CHR 0x27, CHR 0x0A],
                            ''file '' @ [CHR 0x27] @ ''/out/segment-0002.mp4'' @ [CHR 0x27, CHR 0x0A]],
            segments = [SilentHold [''shots'', ''001.png''] [''out'', ''segment-0000.mp4''] 2,
                        AudioHeld [''shots'', ''002.png''] [''shots'', ''003.mp3'']
                          [''out'', ''segment-0001.mp4''] (3602879701896397 / 36028797018963968),
                        AudioHeld [''shots'', ''002.png''] [''shots'', ''004.mp3'']
                          [''out'', ''segment-0002.mp4''] (3602879701896397 / 18014398509481984)]\<rparr>
   \<and> (5179139571476071 / 2251799813685248 :: rat)
       \<noteq> of_nat 1 * 2 + (3602879701896397 / 36028797018963968 + 3602879701896397 / 18014398509481984)
   \<and> (5179139571476071 / 2251799813685248 :: rat)
       \<noteq> float_add (float_accumulate 0 [2])
            (float_accumulate 0 [3602879701896397 / 36028797018963968,
                                 3602879701896397 / 18014398509481984])"
  by code_simp

lemma add_segments_Nil: "add_segments e st [] = st"
  by (simp add: add_segments_def float_accumulate_def)

lemma add_segments_Cons:
  "add_segments e (add_segments e st [s]) new = add_segments e st (s # new)"
  by (simp add: add_segments_def float_accumulate_def)

lemma add_segments_sel:
  "current_image (add_segments e st new) = current_image st"
  "segment_index (add_segments e st new) = segment_index st + length new"
  "segments (add_segments e st new) = segments st @ new"
  by (simp_all add: add_segments_def)

lemma step_audio_some:
  assumes "suffix a \<in> {''.mp3'', ''.wav''}"
    and "get_audio_duration e a = Some d"
    and "current_image st = Some img"
    and "ffmpeg_ok e (AudioHeld img a (segment_file sdir (segment_index st)) d)"
  shows "build_step e sdir fd st a nx
         = Inr (add_segments e st [AudioHeld img a (segment_file sdir (segment_index st)) d])"
  using assms
  by (auto simp add: build_step_def Let_def write_line_def add_segments_def float_accumulate_def)

lemma held_block_Nil: "held_block e sdir img i [] = []"
  by (simp add: held_block_def)

lemma held_block_None:
  "get_audio_duration e a = None \<Longrightarrow> held_block e sdir img i (a # as) = held_block e sdir img i as"
  by (simp add: held_block_def)

lemma held_block_Some:
  "get_audio_duration e a = Some d \<Longrightarrow>
   held_block e sdir img i (a # as)
     = AudioHeld img a (segment_file sdir i) d # held_block e sdir img (Suc i) as"
  by (simp add: held_block_def)

lemma audio_block:
  assumes "\<forall>a\<in>set audios. suffix a \<in> {''.mp3'', ''.wav''}"
    and "current_image st = Some img"
    and "\<forall>s\<in>set (held_block e sdir img (segment_index st) audios). ffmpeg_ok e s"
  shows "build_segments e sdir fd st (audios @ rest)
         = build_segments e sdir fd
             (add_segments e st (held_block e sdir img (segment_index st) audios)) rest"
  using assms
proof (induction audios arbitrary: st)
  case Nil
  then show ?case by (simp add: held_block_Nil add_segments_Nil)
next
  case (Cons a as)
  have sa: "suffix a \<in> {''.mp3'', ''.wav''}" using Cons.prems(1) by simp
  have sas: "\<forall>a\<in>set as. suffix a \<in> {''.mp3'', ''.wav''}" using Cons.prems(1) by simp
  show ?case
  proof (cases "get_audio_duration e a")
    case None
    have step: "\<And>nx. build_step e sdir fd st a nx = Inr st"
      using sa None by (rule step_audio_none)
    have hb: "held_block e sdir img (segment_index st) (a # as) = held_block e sdir img (segment_index st) as"
      using None by (rule held_block_None)
    have "\<forall>s\<in>set (held_block e sdir img (segment_index st) as). ffmpeg_ok e s"
      using Cons.prems(3) hb by simp
    from Cons.IH [OF sas Cons.prems(2) this] show ?thesis
      by (simp add: step hb)
  next
    case (Some d)
    let ?seg = "AudioHeld img a (segment_file sdir (segment_index st)) d"
    let ?st1 = "add_segments e st [?seg]"
    have hb: "held_block e sdir img (segment_index st) (a # as)
              = ?seg # held_block e sdir img (Suc (segment_index st)) as"
      using Some by (rule held_block_Some)
    have ok: "ffmpeg_ok e ?seg" using Cons.prems(3) hb by simp
    have step: "\<And>nx. build_step e sdir fd st a nx = Inr ?st1"
      using sa Some Cons.prems(2) ok by (rule step_audio_some)
    have idx: "segment_index ?st1 = Suc (segment_index st)" by (simp add: add_segments_sel)
    have cur: "current_image ?st1 = Some img" using Cons.prems(2) by (simp add: add_segments_sel)
    have "\<forall>s\<in>set (held_block e sdir img (segment_index ?st1) as). ffmpeg_ok e s"
      using Cons.prems(3) hb idx by simp
    from Cons.IH [OF sas cur this]
    have "build_segments e sdir fd ?st1 (as @ rest)
          = build_segments e sdir fd
              (add_segments e ?st1 (held_block e sdir img (Suc (segment_index st)) as)) rest"
      by (simp only: idx)
    then show ?thesis
      by (simp add: step hb add_segments_Cons)
  qed
qed




lemma step_images:
  assumes "build_step e sdir fd st f nx = Inr st'"
  shows "seg_image ` set (segments st') \<union> set_option (current_image st')
         \<subseteq> seg_image ` set (segments st) \<union> set_option (current_image st) \<union> {f}"
  using assms
  by (auto simp add: build_step_def Let_def write_line_def split: if_splits option.splits)

lemma step_png_images:
  assumes "suffix f = ''.png''" and "build_step e sdir fd st f nx = Inr st'"
  shows "seg_image ` set (segments st') \<union> set_option (current_image st')
         \<subseteq> seg_image ` set (segments st) \<union> {f}"
  using assms
  by (auto simp add: build_step_def Let_def write_line_def split: if_splits option.splits)

lemma build_images:
  assumes "build_segments e sdir fd st xs = Inr st'"
  shows "seg_image ` set (segments st') \<union> set_option (current_image st')
         \<subseteq> seg_image ` set (segments st) \<union> set_option (current_image st) \<union> set xs"
  using assms
proof (induction xs arbitrary: st)
  case Nil
  then show ?case by simp
next
  case (Cons x xs)
  from Cons.prems obtain st1 where
    s1: "build_step e sdir fd st x (case xs of [] \<Rightarrow> None | n # _ \<Rightarrow> Some n) = Inr st1"
    and r: "build_segments e sdir fd st1 xs = Inr st'"
    by (rule build_segments_Cons_Inr)
  have "set (x # xs) = {x} \<union> set xs" by simp
  with step_images [OF s1] Cons.IH [OF r] show ?case by blast
qed

lemma build_prefix_images:
  assumes "build_segments e sdir fd st (pre @ ys) = Inr st'"
  shows "\<exists>st1. build_segments e sdir fd st1 ys = Inr st'
           \<and> seg_image ` set (segments st1)
               \<subseteq> seg_image ` set (segments st) \<union> set_option (current_image st) \<union> set pre"
  using assms
proof (induction pre arbitrary: st)
  case Nil
  then show ?case by auto
next
  case (Cons p ps)
  from Cons.prems have "build_segments e sdir fd st (p # (ps @ ys)) = Inr st'" by simp
  then obtain stA where
    s1: "build_step e sdir fd st p (case ps @ ys of [] \<Rightarrow> None | n # _ \<Rightarrow> Some n) = Inr stA"
    and r: "build_segments e sdir fd stA (ps @ ys) = Inr st'"
    by (rule build_segments_Cons_Inr)
  from Cons.IH [OF r] obtain st1 where
    b: "build_segments e sdir fd st1 ys = Inr st'"
    and i: "seg_image ` set (segments st1)
               \<subseteq> seg_image ` set (segments stA) \<union> set_option (current_image stA) \<union> set ps"
    by blast
  have "set (p # ps) = {p} \<union> set ps" by simp
  with step_images [OF s1] i
  have "seg_image ` set (segments st1)
          \<subseteq> seg_image ` set (segments st) \<union> set_option (current_image st) \<union> set (p # ps)"
    by blast
  with b show ?case by blast
qed

lemma held_block_all_failed:
  "\<forall>a\<in>set audios. get_audio_duration e a = None \<Longrightarrow> held_block e sdir img i audios = []"
  by (simp add: held_block_def)

lemma failed_block_skipped:
  assumes png: "suffix img = ''.png''"
    and ne: "blk \<noteq> []"
    and bad: "\<forall>a\<in>set blk. suffix a \<in> {''.mp3'', ''.wav''} \<and> get_audio_duration e a = None"
  shows "build_segments e sdir fd st (img # blk @ rest)
         = build_segments e sdir fd (st\<lparr>current_image := Some img\<rparr>) rest"
proof -
  obtain a as where split: "blk = a # as" using ne by (cases blk) auto
  have sa: "suffix a \<in> {''.mp3'', ''.wav''}" using bad split by simp
  let ?st1 = "st\<lparr>current_image := Some img\<rparr>"
  have first: "build_step e sdir fd st img (Some a) = Inr ?st1"
    using png sa by (rule step_png_held)
  have aud: "\<forall>a\<in>set blk. suffix a \<in> {''.mp3'', ''.wav''}" using bad by blast
  have none: "\<forall>a\<in>set blk. get_audio_duration e a = None" using bad by blast
  have hb: "held_block e sdir img (segment_index ?st1) blk = []"
    using none by (rule held_block_all_failed)
  have cur: "current_image ?st1 = Some img" by simp
  have ok: "\<forall>s\<in>set (held_block e sdir img (segment_index ?st1) blk). ffmpeg_ok e s"
    by (simp only: hb) simp
  from audio_block [OF aud cur ok]
  have "build_segments e sdir fd ?st1 (blk @ rest) = build_segments e sdir fd ?st1 rest"
    by (simp only: hb add_segments_Nil)
  with first show ?thesis by (simp add: split)
qed

text \<open>
  C9, as the code has it. An image item that is followed by one or more audio items
  whose probes all fail, and then by an image item or by the end of the list, is shown
  in no segment of the finished pass, provided its path stands at no other position of
  the list: its silent hold is suppressed by the lookahead and every audio item that
  would have held it is skipped. (When a later audio item of the same run probes, the
  image is held by that item's segment: see the counterexample below.)
\<close>

theorem image_never_shown:
  assumes png: "suffix img = ''.png''"
    and ne: "blk \<noteq> []"
    and bad: "\<forall>a\<in>set blk. suffix a \<in> {''.mp3'', ''.wav''} \<and> get_audio_duration e a = None"
    and nxt: "rest = [] \<or> suffix (hd rest) = ''.png''"
    and once: "img \<notin> set pre \<and> img \<notin> set rest"
    and run: "build_segments e sdir fd init_state (pre @ img # blk @ rest) = Inr st"
  shows "\<forall>s\<in>set (segments st). seg_image s \<noteq> img"
proof -
  from build_prefix_images [OF run] obtain st1 where
    b: "build_segments e sdir fd st1 (img # blk @ rest) = Inr st"
    and i: "seg_image ` set (segments st1) \<subseteq> set pre"
    by (auto simp add: init_state_def)
  let ?st2 = "st1\<lparr>current_image := Some img\<rparr>"
  from b failed_block_skipped [OF png ne bad]
  have r: "build_segments e sdir fd ?st2 rest = Inr st" by simp
  have "seg_image ` set (segments st) \<subseteq> set pre \<union> set rest"
  proof (cases rest)
    case Nil
    with r have "st = ?st2" by simp
    then have "segments st = segments st1" by simp
    with i show ?thesis by auto
  next
    case (Cons x xs)
    with nxt have px: "suffix x = ''.png''" by simp
    from r Cons have "build_segments e sdir fd ?st2 (x # xs) = Inr st" by simp
    then obtain st3 where
      s3: "build_step e sdir fd ?st2 x (case xs of [] \<Rightarrow> None | n # _ \<Rightarrow> Some n) = Inr st3"
      and r3: "build_segments e sdir fd st3 xs = Inr st"
      by (rule build_segments_Cons_Inr)
    have i2: "seg_image ` set (segments ?st2) \<subseteq> set pre" using i by simp
    from step_png_images [OF px s3] i2
    have "seg_image ` set (segments st3) \<union> set_option (current_image st3) \<subseteq> set pre \<union> {x}"
      by blast
    moreover have "set rest = {x} \<union> set xs" using Cons by simp
    ultimately show ?thesis using build_images [OF r3] by blast
  qed
  with once show ?thesis by blast
qed


theorem image_never_shown_witness:
  "suffix [''shots'', ''001.png''] = ''.png''
   \<and> suffix [''shots'', ''004.wav''] = ''.wav''
   \<and> get_audio_duration demo_env [''shots'', ''004.wav''] = None
   \<and> suffix [''shots'', ''006.png''] = ''.png''
   \<and> build_segments demo_env [''out''] 2 init_state
         ([] @ [''shots'', ''001.png''] # [[''shots'', ''004.wav'']] @ [[''shots'', ''006.png'']])
       = Inr \<lparr>segment_index = 1, current_image = Some [''shots'', ''006.png''], total_duration = 2,
              concat_lines = [''file '' @ [CHR 0x27] @ ''/out/segment-0000.mp4'' @ [CHR 0x27, CHR 0x0A]],
              segments = [SilentHold [''shots'', ''006.png''] [''out'', ''segment-0000.mp4''] 2]\<rparr>
   \<and> seg_image (SilentHold [''shots'', ''006.png''] [''out'', ''segment-0000.mp4''] 2)
       \<noteq> [''shots'', ''001.png'']"
proof -
  let ?img = "[''shots'', ''001.png'']"
  let ?st = "\<lparr>segment_index = 1, current_image = Some [''shots'', ''006.png''], total_duration = 2,
              concat_lines = [''file '' @ [CHR 0x27] @ ''/out/segment-0000.mp4'' @ [CHR 0x27, CHR 0x0A]],
              segments = [SilentHold [''shots'', ''006.png''] [''out'', ''segment-0000.mp4''] 2]\<rparr>"
  have png: "suffix ?img = ''.png''" by code_simp
  have wav: "suffix [''shots'', ''004.wav''] = ''.wav''" by code_simp
  have none: "get_audio_duration demo_env [''shots'', ''004.wav''] = None" by code_simp
  have png6: "suffix [''shots'', ''006.png''] = ''.png''" by code_simp
  have ne: "[[''shots'', ''004.wav'']] \<noteq> []" by simp
  have bad: "\<forall>a\<in>set [[''shots'', ''004.wav'']].
               suffix a \<in> {''.mp3'', ''.wav''} \<and> get_audio_duration demo_env a = None"
    using wav none by simp
  have nxt: "[[''shots'', ''006.png'']] = [] \<or> suffix (hd [[''shots'', ''006.png'']]) = ''.png''"
    using png6 by simp
  have once: "?img \<notin> set [] \<and> ?img \<notin> set [[''shots'', ''006.png'']]" by simp
  have run: "build_segments demo_env [''out''] 2 init_state
               ([] @ ?img # [[''shots'', ''004.wav'']] @ [[''shots'', ''006.png'']]) = Inr ?st"
    by code_simp
  from image_never_shown [OF png ne bad nxt once run]
  have "seg_image (SilentHold [''shots'', ''006.png''] [''out'', ''segment-0000.mp4''] 2) \<noteq> ?img"
    by simp
  with png wav none png6 run show ?thesis by blast
qed

text \<open>
  C9 as stated fails: 001.png is immediately followed by 004.wav, whose probe fails, and
  is still shown, because 005.mp3 probes and holds the current image.
\<close>

theorem image_vanishes_counterexample:
  "suffix [''shots'', ''001.png''] = ''.png''
   \<and> suffix [''shots'', ''004.wav''] = ''.wav''
   \<and> get_audio_duration demo_env [''shots'', ''004.wav''] = None
   \<and> build_segments demo_env [''out''] 2 init_state
         [[''shots'', ''001.png''], [''shots'', ''004.wav''], [''shots'', ''005.mp3'']]
       = Inr \<lparr>segment_index = 1, current_image = Some [''shots'', ''001.png''],
              total_duration = round_double (16 / 5),
              concat_lines = [''file '' @ [CHR 0x27] @ ''/out/segment-0000.mp4'' @ [CHR 0x27, CHR 0x0A]],
              segments = [AudioHeld [''shots'', ''001.png''] [''shots'', ''005.mp3'']
                            [''out'', ''segment-0000.mp4''] (round_double (16 / 5))]\<rparr>"
  by code_simp

lemma dec_value_snoc: "dec_value (s @ [c]) = 10 * dec_value s + (of_char c - 48)"
  by (simp add: dec_value_def)

lemma of_char_digit: "d < 10 \<Longrightarrow> (of_char (digit_char d) :: nat) - 48 = d"
  by (simp add: digit_char_def)

lemma dec_value_decimal: "dec_value (decimal n) = n"
proof (induction n rule: decimal.induct)
  case (1 n)
  show ?case
  proof (cases "n < 10")
    case True
    then have "decimal n = [] @ [digit_char n]" by (simp add: decimal.simps)
    then show ?thesis using True by (simp only: dec_value_snoc of_char_digit) (simp add: dec_value_def)
  next
    case False
    then have d: "decimal n = decimal (n div 10) @ [digit_char (n mod 10)]"
      by (subst decimal.simps) simp
    have "n mod 10 < 10" by simp
    then have "(of_char (digit_char (n mod 10)) :: nat) - 48 = n mod 10" by (rule of_char_digit)
    with 1 False d show ?thesis by (simp add: dec_value_snoc)
  qed
qed

lemma dec_value_zeros: "foldl (\<lambda>acc c. 10 * acc + (of_char c - 48)) 0 (replicate k CHR ''0'') = (0::nat)"
  by (induction k) simp_all

lemma dec_value_fmt04d: "dec_value (fmt04d n) = n"
proof -
  have "dec_value (fmt04d n) = foldl (\<lambda>acc c. 10 * acc + (of_char c - 48)) 0 (decimal n)"
    by (simp add: dec_value_def fmt04d_def dec_value_zeros)
  also have "\<dots> = dec_value (decimal n)" by (simp add: dec_value_def)
  finally show ?thesis by (simp add: dec_value_decimal)
qed

lemma segment_file_inj: "segment_file sdir i = segment_file sdir j \<Longrightarrow> i = j"
proof -
  assume "segment_file sdir i = segment_file sdir j"
  then have "fmt04d i = fmt04d j" by (simp add: segment_file_def)
  then have "dec_value (fmt04d i) = dec_value (fmt04d j)" by simp
  then show "i = j" by (simp add: dec_value_fmt04d)
qed


lemma step_index:
  assumes "build_step e sdir fd st f nx = Inr st'"
  shows "segment_index st \<le> segment_index st' \<and> segment_index st' \<le> segment_index st + 1
       \<and> (\<exists>more. concat_lines st' = concat_lines st @ more)"
  using assms
  by (auto simp add: build_step_def Let_def write_line_def split: if_splits option.splits)

lemma step_cases:
  assumes "build_step e sdir fd st f nx = Inr st'"
  shows "(segments st' = segments st \<and> segment_index st' = segment_index st
            \<and> concat_lines st' = concat_lines st)
       \<or> (\<exists>s. seg_out s = segment_file sdir (segment_index st)
              \<and> segments st' = segments st @ [s]
              \<and> segment_index st' = Suc (segment_index st)
              \<and> concat_lines st'
                  = concat_lines st @ [concat_line e (segment_file sdir (segment_index st))])
       \<or> (segments st' = segments st \<and> segment_index st' = Suc (segment_index st)
              \<and> concat_lines st'
                  = concat_lines st @ [concat_line e (segment_file sdir (segment_index st))])"
  using assms
  by (auto simp add: build_step_def Let_def write_line_def split: if_splits option.splits)

lemma step_indexed:
  assumes s: "build_step e sdir fd st f nx = Inr st'" and i: "indexed e sdir st"
  shows "indexed e sdir st'"
proof -
  from i have l: "concat_lines st = map (\<lambda>i. concat_line e (segment_file sdir i)) [0..<segment_index st]"
    and o: "\<forall>s\<in>set (segments st). \<exists>i<segment_index st. seg_out s = segment_file sdir i"
    by (simp_all add: indexed_def)
  from step_cases [OF s] show ?thesis
  proof (elim disjE exE conjE)
    assume "segments st' = segments st" "segment_index st' = segment_index st"
      "concat_lines st' = concat_lines st"
    with i show ?thesis by (simp add: indexed_def)
  next
    fix sg
    assume a: "seg_out sg = segment_file sdir (segment_index st)"
      "segments st' = segments st @ [sg]" "segment_index st' = Suc (segment_index st)"
      "concat_lines st' = concat_lines st @ [concat_line e (segment_file sdir (segment_index st))]"
    have "concat_lines st' = map (\<lambda>i. concat_line e (segment_file sdir i)) [0..<segment_index st']"
      using a l by simp
    moreover have "\<forall>s\<in>set (segments st'). \<exists>i<segment_index st'. seg_out s = segment_file sdir i"
      using a o less_Suc_eq by auto
    ultimately show ?thesis by (simp add: indexed_def)
  next
    assume a: "segments st' = segments st" "segment_index st' = Suc (segment_index st)"
      "concat_lines st' = concat_lines st @ [concat_line e (segment_file sdir (segment_index st))]"
    have "concat_lines st' = map (\<lambda>i. concat_line e (segment_file sdir i)) [0..<segment_index st']"
      using a l by simp
    moreover have "\<forall>s\<in>set (segments st'). \<exists>i<segment_index st'. seg_out s = segment_file sdir i"
      using a o less_Suc_eq by auto
    ultimately show ?thesis by (simp add: indexed_def)
  qed
qed

lemma step_avoids:
  assumes s: "build_step e sdir fd st f nx = Inr st'"
    and av: "avoids sdir k st" and k: "k < segment_index st"
  shows "avoids sdir k st'"
proof -
  from av have o: "\<forall>s\<in>set (segments st). \<exists>i<segment_index st. i \<noteq> k \<and> seg_out s = segment_file sdir i"
    by (simp add: avoids_def)
  from step_cases [OF s] show ?thesis
  proof (elim disjE exE conjE)
    assume "segments st' = segments st" "segment_index st' = segment_index st"
      "concat_lines st' = concat_lines st"
    with av show ?thesis by (simp add: avoids_def)
  next
    fix sg
    assume a: "seg_out sg = segment_file sdir (segment_index st)"
      "segments st' = segments st @ [sg]" "segment_index st' = Suc (segment_index st)"
      "concat_lines st' = concat_lines st @ [concat_line e (segment_file sdir (segment_index st))]"
    have "\<exists>i<segment_index st'. i \<noteq> k \<and> seg_out s = segment_file sdir i"
      if "s \<in> set (segments st')" for s
    proof (cases "s = sg")
      case True
      with a k show ?thesis by auto
    next
      case False
      with that a have "s \<in> set (segments st)" by simp
      with o obtain i where "i < segment_index st" "i \<noteq> k" "seg_out s = segment_file sdir i"
        by blast
      with a show ?thesis using less_Suc_eq by auto
    qed
    then show ?thesis by (simp add: avoids_def)
  next
    assume a: "segments st' = segments st" "segment_index st' = Suc (segment_index st)"
      "concat_lines st' = concat_lines st @ [concat_line e (segment_file sdir (segment_index st))]"
    have "\<exists>i<segment_index st'. i \<noteq> k \<and> seg_out s = segment_file sdir i"
      if "s \<in> set (segments st')" for s
    proof -
      from that a have "s \<in> set (segments st)" by simp
      with o obtain i where "i < segment_index st" "i \<noteq> k" "seg_out s = segment_file sdir i"
        by blast
      with a show ?thesis using less_Suc_eq by auto
    qed
    then show ?thesis by (simp add: avoids_def)
  qed
qed

lemma build_avoids:
  assumes "build_segments e sdir fd st xs = Inr st'"
    and "avoids sdir k st" and "k < segment_index st"
  shows "avoids sdir k st' \<and> (\<exists>more. concat_lines st' = concat_lines st @ more)"
  using assms
proof (induction xs arbitrary: st)
  case Nil
  then show ?case by simp
next
  case (Cons x xs)
  from Cons.prems(1) obtain st1 where
    s1: "build_step e sdir fd st x (case xs of [] \<Rightarrow> None | n # _ \<Rightarrow> Some n) = Inr st1"
    and r: "build_segments e sdir fd st1 xs = Inr st'"
    by (rule build_segments_Cons_Inr)
  from step_avoids [OF s1 Cons.prems(2,3)] have a: "avoids sdir k st1" .
  from step_index [OF s1] Cons.prems(3) have k: "k < segment_index st1" by simp
  from step_index [OF s1] obtain m1 where m1: "concat_lines st1 = concat_lines st @ m1" by blast
  from Cons.IH [OF r a k] obtain m2 where
    a': "avoids sdir k st'" and m2: "concat_lines st' = concat_lines st1 @ m2" by blast
  from m1 m2 have "concat_lines st' = concat_lines st @ (m1 @ m2)" by simp
  with a' show ?case by blast
qed

lemma build_prefix_indexed:
  assumes "build_segments e sdir fd st (pre @ ys) = Inr st'" and "indexed e sdir st"
  shows "\<exists>st1. build_segments e sdir fd st1 ys = Inr st' \<and> indexed e sdir st1
           \<and> segment_index st1 \<le> segment_index st + length pre"
  using assms
proof (induction pre arbitrary: st)
  case Nil
  then show ?case by auto
next
  case (Cons p ps)
  from Cons.prems(1) have "build_segments e sdir fd st (p # (ps @ ys)) = Inr st'" by simp
  then obtain stA where
    s1: "build_step e sdir fd st p (case ps @ ys of [] \<Rightarrow> None | n # _ \<Rightarrow> Some n) = Inr stA"
    and r: "build_segments e sdir fd stA (ps @ ys) = Inr st'"
    by (rule build_segments_Cons_Inr)
  from step_indexed [OF s1 Cons.prems(2)] have iA: "indexed e sdir stA" .
  from Cons.IH [OF r iA] obtain st1 where
    b: "build_segments e sdir fd st1 ys = Inr st'" and i1: "indexed e sdir st1"
    and le: "segment_index st1 \<le> segment_index stA + length ps"
    by blast
  from step_index [OF s1] le have "segment_index st1 \<le> segment_index st + length (p # ps)"
    by simp
  with b i1 show ?case by blast
qed

text \<open>An item that is neither image nor audio for the loop gets a manifest line and an
  index but no segment, and no segment of a finished pass is written to the segment file
  that line names.\<close>

lemma other_item_line_without_segment:
  assumes np: "suffix f \<noteq> ''.png''" and na: "suffix f \<notin> {''.mp3'', ''.wav''}"
  shows "build_step e sdir fd st f nx
           = Inr (st\<lparr>concat_lines := concat_lines st
                                       @ [concat_line e (segment_file sdir (segment_index st))],
                     segment_index := segment_index st + 1\<rparr>)
       \<and> (\<forall>pre rest st'.
            build_segments e sdir fd init_state (pre @ f # rest) = Inr st'
            \<longrightarrow> (\<exists>k \<le> length pre.
                   k < length (concat_lines st')
                 \<and> concat_lines st' ! k = concat_line e (segment_file sdir k)
                 \<and> (\<forall>s\<in>set (segments st'). seg_out s \<noteq> segment_file sdir k)))"
proof -
  have step: "build_step e sdir fd st f nx = Inr (write_line e sdir st)" for st nx
    using np na by (rule step_other)
  have whole: "\<exists>k \<le> length pre.
                   k < length (concat_lines st')
                 \<and> concat_lines st' ! k = concat_line e (segment_file sdir k)
                 \<and> (\<forall>s\<in>set (segments st'). seg_out s \<noteq> segment_file sdir k)"
    if run: "build_segments e sdir fd init_state (pre @ f # rest) = Inr st'" for pre rest st'
  proof -
    have "indexed e sdir init_state" by (simp add: indexed_def init_state_def)
    from build_prefix_indexed [OF run this] obtain st1 where
      b: "build_segments e sdir fd st1 (f # rest) = Inr st'"
      and i1: "indexed e sdir st1"
      and le: "segment_index st1 \<le> length pre"
      by (auto simp add: init_state_def)
    let ?k = "segment_index st1"
    let ?st2 = "write_line e sdir st1"
    from b step have r: "build_segments e sdir fd ?st2 rest = Inr st'" by simp
    have len1: "length (concat_lines st1) = ?k" using i1 by (simp add: indexed_def)
    have lines2: "concat_lines ?st2 = concat_lines st1 @ [concat_line e (segment_file sdir ?k)]"
      by (simp add: write_line_def)
    have av: "avoids sdir ?k ?st2"
    proof -
      have "\<exists>i<segment_index ?st2. i \<noteq> ?k \<and> seg_out s = segment_file sdir i"
        if "s \<in> set (segments ?st2)" for s
      proof -
        from that have "s \<in> set (segments st1)" by (simp add: write_line_def)
        with i1 obtain i where "i < ?k" "seg_out s = segment_file sdir i"
          by (auto simp add: indexed_def)
        then have "i < segment_index ?st2 \<and> i \<noteq> ?k \<and> seg_out s = segment_file sdir i"
          by (simp add: write_line_def)
        then show ?thesis by blast
      qed
      then show ?thesis by (simp add: avoids_def)
    qed
    have lt: "?k < segment_index ?st2" by (simp add: write_line_def)
    from build_avoids [OF r av lt] obtain more where
      av': "avoids sdir ?k st'" and m: "concat_lines st' = concat_lines ?st2 @ more"
      by blast
    from m lines2 have l: "concat_lines st' = concat_lines st1 @ concat_line e (segment_file sdir ?k) # more"
      by simp
    have c1: "?k < length (concat_lines st')" using l len1 by simp
    have c2: "concat_lines st' ! ?k = concat_line e (segment_file sdir ?k)"
      using l len1 by (simp add: nth_append)
    have c3: "\<forall>s\<in>set (segments st'). seg_out s \<noteq> segment_file sdir ?k"
    proof
      fix s assume "s \<in> set (segments st')"
      with av' obtain i where "i \<noteq> ?k" and "seg_out s = segment_file sdir i"
        by (auto simp add: avoids_def)
      then show "seg_out s \<noteq> segment_file sdir ?k"
        using segment_file_inj by metis
    qed
    from le c1 c2 c3 show ?thesis by blast
  qed
  from step whole show ?thesis by (simp add: write_line_def)
qed

section \<open>Letter case of extensions\<close>

text \<open>On a media list whose items all have one of the suffixes .png, .mp3, .wav in lower
  case, the manifest of a finished pass has exactly one line per segment built, in
  order.\<close>

lemma step_manifest_matches:
  assumes "build_step e sdir fd st f nx = Inr st'"
    and "suffix f \<in> {''.png'', ''.mp3'', ''.wav''}"
    and "manifest_matches e sdir st"
  shows "manifest_matches e sdir st'"
  using assms
  by (auto simp add: build_step_def Let_def write_line_def manifest_matches_def
      split: if_splits option.splits)

lemma build_manifest_matches:
  assumes "build_segments e sdir fd st xs = Inr st'"
    and "\<forall>f\<in>set xs. suffix f \<in> {''.png'', ''.mp3'', ''.wav''}"
    and "manifest_matches e sdir st"
  shows "manifest_matches e sdir st'"
  using assms
proof (induction xs arbitrary: st)
  case Nil
  then show ?case by simp
next
  case (Cons x xs)
  from Cons.prems(1) obtain st1 where
    s1: "build_step e sdir fd st x (case xs of [] \<Rightarrow> None | n # _ \<Rightarrow> Some n) = Inr st1"
    and r: "build_segments e sdir fd st1 xs = Inr st'"
    by (rule build_segments_Cons_Inr)
  have sx: "suffix x \<in> {''.png'', ''.mp3'', ''.wav''}" using Cons.prems(2) by simp
  have rest: "\<forall>f\<in>set xs. suffix f \<in> {''.png'', ''.mp3'', ''.wav''}" using Cons.prems(2) by simp
  from step_manifest_matches [OF s1 sx Cons.prems(3)] have "manifest_matches e sdir st1" .
  from Cons.IH [OF r rest this] show ?case .
qed

lemma manifest_contract_lower_case:
  assumes "build_segments e sdir fd init_state xs = Inr st"
    and "\<forall>f\<in>set xs. suffix f \<in> {''.png'', ''.mp3'', ''.wav''}"
  shows "concat_lines st = map (\<lambda>s. concat_line e (seg_out s)) (segments st)
       \<and> map seg_out (segments st) = map (segment_file sdir) [0..<length (segments st)]"
proof -
  have "manifest_matches e sdir init_state"
    by (simp add: manifest_matches_def init_state_def)
  from build_manifest_matches [OF assms this]
  have m: "concat_lines st = map (\<lambda>s. concat_line e (seg_out s)) (segments st)"
    and o: "map seg_out (segments st) = map (segment_file sdir) [0..<segment_index st]"
    by (simp_all add: manifest_matches_def)
  from o have "length (segments st) = segment_index st"
    by (metis length_map length_upt minus_nat.diff_0)
  with m o show ?thesis by simp
qed

text \<open>
  C4 fails on the code. The collection accepts an extension in any letter case
  (\<^verbatim>\<open>f.suffix.lower() in valid_extensions\<close>), but the counts, the test of the first
  file, the conversion of narration and the segment loop compare \<^verbatim>\<open>f.suffix\<close> with
  the lower-case extensions only. For the directory holding 001.png and 002.MP3 the
  second file is catalogued, yet it is not counted as audio, 001.png gets a silent hold
  and 002.MP3 no segment; with 002.mp3 in its place the run counts one audio clip and
  builds the audio segment holding 001.png.
\<close>

theorem upper_case_audio_is_not_audio:
  "catalogued (demo_fs [''002.MP3'', ''001.png'']) (demo_dir @ [''002.MP3''])
   \<and> outcome (main_run demo_env demo_tts (demo_fs [''002.MP3'', ''001.png''])
                [''proj''] ''demo'' False (demo_world []))
       = Inr ([[''proj'', ''screenshots'', ''demo'', ''001.png''],
               [''proj'', ''screenshots'', ''demo'', ''002.MP3'']],
              0,
              \<lparr>segment_index = 2,
               current_image = Some [''proj'', ''screenshots'', ''demo'', ''001.png''],
               total_duration = 2,
               concat_lines =
                 [''file '' @ [CHR 0x27] @ ''/proj/test-videos/demo-segments/segment-0000.mp4''
                    @ [CHR 0x27, CHR 0x0A],
                  ''file '' @ [CHR 0x27] @ ''/proj/test-videos/demo-segments/segment-0001.mp4''
                    @ [CHR 0x27, CHR 0x0A]],
               segments =
                 [SilentHold [''proj'', ''screenshots'', ''demo'', ''001.png'']
                    [''proj'', ''test-videos'', ''demo-segments'', ''segment-0000.mp4''] 2]\<rparr>)
   \<and> outcome (main_run demo_env demo_tts (demo_fs [''002.mp3'', ''001.png''])
                [''proj''] ''demo'' False (demo_world []))
       = Inr ([[''proj'', ''screenshots'', ''demo'', ''001.png''],
               [''proj'', ''screenshots'', ''demo'', ''002.mp3'']],
              1,
              \<lparr>segment_index = 1,
               current_image = Some [''proj'', ''screenshots'', ''demo'', ''001.png''],
               total_duration = 5,
               concat_lines =
                 [''file '' @ [CHR 0x27] @ ''/proj/test-videos/demo-segments/segment-0000.mp4''
                    @ [CHR 0x27, CHR 0x0A]],
               segments =
                 [AudioHeld [''proj'', ''screenshots'', ''demo'', ''001.png'']
                    [''proj'', ''screenshots'', ''demo'', ''002.mp3'']
                    [''proj'', ''test-videos'', ''demo-segments'', ''segment-0000.mp4''] 5]\<rparr>)"
  by code_simp

text \<open>
  C7 fails on the code, by the same comparison of \<^verbatim>\<open>f.suffix\<close> with lower-case
  extensions only. For the directory holding 001.png and 002.PNG the run reaches the
  segment loop and builds one segment, the silent hold of 001.png, but writes two
  manifest lines: the second names segment-0001.mp4, which no encoder run produced.
\<close>

theorem manifest_has_more_lines_than_segments:
  "outcome (main_run demo_env demo_tts (demo_fs [''002.PNG'', ''001.png''])
              [''proj''] ''demo'' False (demo_world []))
       = Inr ([[''proj'', ''screenshots'', ''demo'', ''001.png''],
               [''proj'', ''screenshots'', ''demo'', ''002.PNG'']],
              0,
              \<lparr>segment_index = 2,
               current_image = Some [''proj'', ''screenshots'', ''demo'', ''001.png''],
               total_duration = 2,
               concat_lines =
                 [''file '' @ [CHR 0x27] @ ''/proj/test-videos/demo-segments/segment-0000.mp4''
                    @ [CHR 0x27, CHR 0x0A],
                  ''file '' @ [CHR 0x27] @ ''/proj/test-videos/demo-segments/segment-0001.mp4''
                    @ [CHR 0x27, CHR 0x0A]],
               segments =
                 [SilentHold [''proj'', ''screenshots'', ''demo'', ''001.png'']
                    [''proj'', ''test-videos'', ''demo-segments'', ''segment-0000.mp4''] 2]\<rparr>)"
  by code_simp

section \<open>Properties of the narration cache\<close>

lemma convert_files_append:
  "convert_files t L ui w conv n (xs @ ys)
   = (case convert_files t L ui w conv n xs of
        Inl err \<Rightarrow> Inl err
      | Inr (w1, conv1, n1) \<Rightarrow> convert_files t L ui w1 conv1 n1 ys)"
  by (induction xs arbitrary: w conv n) (auto split: sum.splits prod.splits)

lemma convert_item_fresh:
  "cache_check w (wav_path_of L ui f) f = Inr True \<Longrightarrow>
   convert_item t L ui w f = Inr (w, wav_path_of L ui f)"
  by (simp add: convert_item_def)

lemma cache_check_stale:
  assumes "files w f = Some src"
    and "files w wav = None \<or> (\<exists>c. files w wav = Some c \<and> st_mtime c \<le> st_mtime src)"
  shows "cache_check w wav f = Inr False"
  using assms by (auto simp add: cache_check_def)

text \<open>
  C8, as the code has it. A narration item whose text is empty after stripping stops
  the run with the error that names the file, and leaves the file system and the
  synthesis log as they were (no audio artifact is written), when the conversion loop
  reaches the item with the Kokoro package installed and the item's cache entry is
  absent or not strictly newer than the text file. With a cache entry strictly newer
  than the text file the text is not read: the item is resolved to the cached audio, the
  file system is unchanged and the loop goes on.
\<close>

theorem empty_narration_is_fatal:
  assumes istxt: "suffix f = ''.txt''"
    and src: "files w f = Some src"
    and empty: "py_strip (data src) = []"
    and stale: "files w (wav_path_of L use_intro f) = None
                \<or> (\<exists>c. files w (wav_path_of L use_intro f) = Some c \<and> st_mtime c \<le> st_mtime src)"
    and inst: "kokoro_installed t"
  shows "run_kokoro_tts t w f (wav_path_of L use_intro f) = Inl (EmptyNarration (path_name f), w)
       \<and> convert_item t L use_intro w f = Inl (EmptyNarration (path_name f), w)
       \<and> convert_files t L use_intro w converted n (f # rest) = Inl (EmptyNarration (path_name f), w)
       \<and> (\<forall>w0 c0 n0 pre. convert_files t L use_intro w0 c0 n0 pre = Inr (w, converted, n)
            \<longrightarrow> convert_files t L use_intro w0 c0 n0 (pre @ f # rest)
                 = Inl (EmptyNarration (path_name f), w))
       \<and> (\<forall>w2 c. files w2 f = Some src \<and> files w2 (wav_path_of L use_intro f) = Some c
                  \<and> st_mtime src < st_mtime c
            \<longrightarrow> convert_item t L use_intro w2 f = Inr (w2, wav_path_of L use_intro f)
              \<and> convert_files t L use_intro w2 converted n (f # rest)
                  = convert_files t L use_intro w2 (converted @ [wav_path_of L use_intro f]) (n + 1) rest)"
proof -
  have r: "run_kokoro_tts t w f (wav_path_of L use_intro f) = Inl (EmptyNarration (path_name f), w)"
    using src empty inst by (simp add: run_kokoro_tts_def)
  have c: "cache_check w (wav_path_of L use_intro f) f = Inr False"
    using src stale by (rule cache_check_stale)
  have i: "convert_item t L use_intro w f = Inl (EmptyNarration (path_name f), w)"
    using r c by (simp add: convert_item_def)
  have l: "convert_files t L use_intro w converted n (f # rest) = Inl (EmptyNarration (path_name f), w)"
    using istxt i by simp
  have a: "convert_files t L use_intro w0 c0 n0 (pre @ f # rest) = Inl (EmptyNarration (path_name f), w)"
    if "convert_files t L use_intro w0 c0 n0 pre = Inr (w, converted, n)" for w0 c0 n0 pre
    using that l by (simp add: convert_files_append)
  have fr: "convert_item t L use_intro w2 f = Inr (w2, wav_path_of L use_intro f)
              \<and> convert_files t L use_intro w2 converted n (f # rest)
                  = convert_files t L use_intro w2 (converted @ [wav_path_of L use_intro f]) (n + 1) rest"
    if h: "files w2 f = Some src \<and> files w2 (wav_path_of L use_intro f) = Some c
            \<and> st_mtime src < st_mtime c" for w2 c
  proof -
    from h have "cache_check w2 (wav_path_of L use_intro f) f = Inr True"
      by (simp add: cache_check_def)
    then have "convert_item t L use_intro w2 f = Inr (w2, wav_path_of L use_intro f)"
      by (rule convert_item_fresh)
    then show ?thesis using istxt by simp
  qed
  from r i l a fr show ?thesis by blast
qed

theorem empty_narration_is_fatal_witness:
  "suffix (demo_dir @ [''002.txt'']) = ''.txt''
   \<and> files (demo_world [(demo_dir @ [''002.txt''], \<lparr>st_mtime = 5, data = [0xA0, 0x20, 0x0A]\<rparr>)])
         (demo_dir @ [''002.txt''])
       = Some \<lparr>st_mtime = 5, data = [0xA0, 0x20, 0x0A]\<rparr>
   \<and> py_strip (data \<lparr>st_mtime = 5, data = [0xA0, 0x20, 0x0A]\<rparr>) = []
   \<and> files (demo_world [(demo_dir @ [''002.txt''], \<lparr>st_mtime = 5, data = [0xA0, 0x20, 0x0A]\<rparr>)])
         (wav_path_of (make_layout [''proj''] ''demo'') False (demo_dir @ [''002.txt''])) = None
   \<and> kokoro_installed demo_tts
   \<and> convert_files demo_tts (make_layout [''proj''] ''demo'') False
         (demo_world [(demo_dir @ [''002.txt''], \<lparr>st_mtime = 5, data = [0xA0, 0x20, 0x0A]\<rparr>)])
         [demo_dir @ [''001.png'']] 0 ((demo_dir @ [''002.txt'']) # [])
       = Inl (EmptyNarration (path_name (demo_dir @ [''002.txt''])),
              demo_world [(demo_dir @ [''002.txt''], \<lparr>st_mtime = 5, data = [0xA0, 0x20, 0x0A]\<rparr>)])
   \<and> path_name (demo_dir @ [''002.txt'']) = ''002.txt''
   \<and> outcome (main_run demo_env demo_tts (demo_fs [''001.png'', ''002.txt'']) [''proj''] ''demo'' False
         (demo_world [(demo_dir @ [''002.txt''], \<lparr>st_mtime = 5, data = [0xA0, 0x20, 0x0A]\<rparr>)]))
       = Inl (EmptyNarration ''002.txt'')"
proof -
  let ?f = "demo_dir @ [''002.txt'']"
  let ?src = "\<lparr>st_mtime = 5, data = [0xA0, 0x20, 0x0A]\<rparr>"
  let ?w = "demo_world [(?f, ?src)]"
  let ?L = "make_layout [''proj''] ''demo''"
  have istxt: "suffix ?f = ''.txt''" by code_simp
  have src: "files ?w ?f = Some ?src" by (simp add: demo_world_def)
  have empty: "py_strip (data ?src) = []" by code_simp
  have absent: "files ?w (wav_path_of ?L False ?f) = None" by code_simp
  then have stale: "files ?w (wav_path_of ?L False ?f) = None
                \<or> (\<exists>c. files ?w (wav_path_of ?L False ?f) = Some c \<and> st_mtime c \<le> st_mtime ?src)"
    by simp
  have inst: "kokoro_installed demo_tts" by (simp add: demo_tts_def)
  have nm: "path_name ?f = ''002.txt''" by code_simp
  have run: "outcome (main_run demo_env demo_tts (demo_fs [''001.png'', ''002.txt'']) [''proj''] ''demo''
                False ?w) = Inl (EmptyNarration ''002.txt'')"
    by code_simp
  from empty_narration_is_fatal [OF istxt src empty stale inst,
      where converted = "[demo_dir @ [''001.png'']]" and n = 0 and rest = "[]"]
  have "convert_files demo_tts ?L False ?w [demo_dir @ [''001.png'']] 0 (?f # [])
        = Inl (EmptyNarration (path_name ?f), ?w)"
    by blast
  with istxt src empty absent inst nm run show ?thesis by blast
qed

text \<open>
  C8 as stated fails: 002.txt holds only blanks, but its cache entry is newer than the
  text file, so the text is not read; the run does not stop, and the cached audio is
  held over 001.png.
\<close>

theorem empty_narration_with_fresh_cache_counterexample:
  "py_strip (ascii ''  '') = []
   \<and> outcome (main_run demo_env demo_tts (demo_fs [''001.png'', ''002.txt'']) [''proj''] ''demo'' False
         (demo_world [(demo_dir @ [''002.txt''], \<lparr>st_mtime = 5, data = ascii ''  ''\<rparr>),
                      (demo_dir @ [''generated-wav'', ''002.wav''], \<lparr>st_mtime = 10, data = ascii ''RIFF''\<rparr>)]))
       = Inr ([[''proj'', ''screenshots'', ''demo'', ''001.png''],
               [''proj'', ''screenshots'', ''demo'', ''generated-wav'', ''002.wav'']],
              1,
              \<lparr>segment_index = 1,
               current_image = Some [''proj'', ''screenshots'', ''demo'', ''001.png''],
               total_duration = round_double (16 / 5),
               concat_lines =
                 [''file '' @ [CHR 0x27] @ ''/proj/test-videos/demo-segments/segment-0000.mp4''
                    @ [CHR 0x27, CHR 0x0A]],
               segments =
                 [AudioHeld [''proj'', ''screenshots'', ''demo'', ''001.png'']
                    [''proj'', ''screenshots'', ''demo'', ''generated-wav'', ''002.wav'']
                    [''proj'', ''test-videos'', ''demo-segments'', ''segment-0000.mp4'']
                    (round_double (16 / 5))]\<rparr>)"
  by code_simp

lemma name_suffix_last:
  assumes "name_suffix n = ''.txt''"
  shows "last n = CHR ''t''"
proof -
  from assms obtain i where d: "drop i n = ''.txt''"
    by (auto simp add: name_suffix_def split: option.splits if_splits)
  have i: "i < length n"
  proof (rule ccontr)
    assume "\<not> i < length n"
    then have "drop i n = []" by simp
    with d show False by simp
  qed
  from i have "last (drop i n) = last n" by (rule last_drop)
  with d show ?thesis by simp
qed

lemma wav_path_not_txt:
  assumes "suffix f = ''.txt''"
  shows "wav_path_of L ui g \<noteq> f"
proof
  assume eq: "wav_path_of L ui g = f"
  have "path_name (wav_path_of L ui g) = stem g @ ''.wav''"
    by (simp add: wav_path_of_def Let_def path_name_def)
  then have "last (path_name (wav_path_of L ui g)) = CHR ''v''" by simp
  moreover from assms have "last (path_name f) = CHR ''t''"
    by (simp add: suffix_def name_suffix_last)
  ultimately show False using eq by simp
qed

lemma cache_check_fresh_iff:
  "(cache_check w wav f = Inr True)
   = (\<exists>c src. files w wav = Some c \<and> files w f = Some src \<and> st_mtime src < st_mtime c)"
  by (auto simp add: cache_check_def split: option.splits)

lemma cache_check_now: "cache_check (w\<lparr>now := t2\<rparr>) wav f = cache_check w wav f"
  by (simp add: cache_check_def split: option.splits)

lemma convert_item_cases:
  assumes "convert_item t L ui w f = Inr (w', p)"
  shows "p = wav_path_of L ui f
       \<and> ((cache_check w p f = Inr True \<and> w' = w)
          \<or> (cache_check w p f = Inr False
              \<and> (\<exists>src. files w f = Some src
                    \<and> w' = w\<lparr>tts_log := tts_log w @ [py_strip (data src)],
                             files := (files w)(p \<mapsto>
                               \<lparr>st_mtime = now w,
                                data = concat (kokoro_pipeline t (py_strip (data src)))\<rparr>)\<rparr>)))"
  using assms
  by (auto simp add: convert_item_def run_kokoro_tts_def Let_def
      split: sum.splits bool.splits option.splits if_splits)


lemma convert_item_world:
  assumes c: "convert_item t L ui w g = Inr (w', p)"
  shows "now w' = now w
       \<and> (\<forall>x. suffix x = ''.txt'' \<longrightarrow> files w' x = files w x)
       \<and> (\<forall>x. files w' x = files w x \<or> (\<exists>d. files w' x = Some \<lparr>st_mtime = now w, data = d\<rparr>))"
proof -
  from convert_item_cases [OF c] have p: "p = wav_path_of L ui g"
    and alt: "(cache_check w p g = Inr True \<and> w' = w)
          \<or> (cache_check w p g = Inr False
              \<and> (\<exists>src. files w g = Some src
                    \<and> w' = w\<lparr>tts_log := tts_log w @ [py_strip (data src)],
                             files := (files w)(p \<mapsto>
                               \<lparr>st_mtime = now w,
                                data = concat (kokoro_pipeline t (py_strip (data src)))\<rparr>)\<rparr>))"
    by blast+
  from alt show ?thesis
  proof (elim disjE conjE exE)
    assume "w' = w"
    then show ?thesis by simp
  next
    fix src
    assume w': "w' = w\<lparr>tts_log := tts_log w @ [py_strip (data src)],
                       files := (files w)(p \<mapsto>
                         \<lparr>st_mtime = now w,
                          data = concat (kokoro_pipeline t (py_strip (data src)))\<rparr>)\<rparr>"
    have "files w' x = files w x" if "suffix x = ''.txt''" for x
    proof -
      from that have "p \<noteq> x" unfolding p by (rule wav_path_not_txt)
      then show ?thesis by (simp add: w')
    qed
    moreover have "now w' = now w" by (simp add: w')
    moreover have "files w' x = files w x \<or> (\<exists>d. files w' x = Some \<lparr>st_mtime = now w, data = d\<rparr>)" for x
      by (cases "x = p") (simp_all add: w')
    ultimately show ?thesis by blast
  qed
qed

lemma convert_item_makes_fresh:
  assumes c: "convert_item t L ui w g = Inr (w', p)"
    and istxt: "suffix g = ''.txt''"
    and old: "\<forall>src. files w g = Some src \<longrightarrow> st_mtime src < now w"
  shows "cache_check w' (wav_path_of L ui g) g = Inr True"
proof -
  from convert_item_cases [OF c] have p: "p = wav_path_of L ui g"
    and alt: "(cache_check w p g = Inr True \<and> w' = w)
          \<or> (cache_check w p g = Inr False
              \<and> (\<exists>src. files w g = Some src
                    \<and> w' = w\<lparr>tts_log := tts_log w @ [py_strip (data src)],
                             files := (files w)(p \<mapsto>
                               \<lparr>st_mtime = now w,
                                data = concat (kokoro_pipeline t (py_strip (data src)))\<rparr>)\<rparr>))"
    by blast+
  from alt show ?thesis
  proof (elim disjE conjE exE)
    assume "cache_check w p g = Inr True" "w' = w"
    then show ?thesis by (simp add: p)
  next
    fix src
    assume src: "files w g = Some src"
      and w': "w' = w\<lparr>tts_log := tts_log w @ [py_strip (data src)],
                       files := (files w)(p \<mapsto>
                         \<lparr>st_mtime = now w,
                          data = concat (kokoro_pipeline t (py_strip (data src)))\<rparr>)\<rparr>"
    from istxt have ne: "p \<noteq> g" unfolding p by (rule wav_path_not_txt)
    from old src have "st_mtime src < now w" by blast
    with src ne show ?thesis
      by (simp add: cache_check_fresh_iff w' p [symmetric])
  qed
qed

lemma fresh_stays:
  assumes f: "cache_check w (wav_path_of L ui g) g = Inr True"
    and istxt: "suffix g = ''.txt''"
    and old: "\<forall>src. files w g = Some src \<longrightarrow> st_mtime src < now w"
    and same: "files w' g = files w g"
    and wr: "files w' (wav_path_of L ui g) = files w (wav_path_of L ui g)
             \<or> (\<exists>d. files w' (wav_path_of L ui g) = Some \<lparr>st_mtime = now w, data = d\<rparr>)"
  shows "cache_check w' (wav_path_of L ui g) g = Inr True"
proof -
  from f obtain c src where c: "files w (wav_path_of L ui g) = Some c"
    and src: "files w g = Some src" and lt: "st_mtime src < st_mtime c"
    by (auto simp add: cache_check_fresh_iff)
  from old src have "st_mtime src < now w" by blast
  with wr c src lt same show ?thesis
    by (auto simp add: cache_check_fresh_iff)
qed


lemma convert_files_Cons_txt:
  assumes "convert_files t L ui w c n (g # gs) = Inr (w', c', n')" and "suffix g = ''.txt''"
  obtains w1 where "convert_item t L ui w g = Inr (w1, wav_path_of L ui g)"
    and "convert_files t L ui w1 (c @ [wav_path_of L ui g]) (n + 1) gs = Inr (w', c', n')"
proof -
  from assms obtain w1 p where i: "convert_item t L ui w g = Inr (w1, p)"
    and r: "convert_files t L ui w1 (c @ [p]) (n + 1) gs = Inr (w', c', n')"
    by (auto split: sum.splits prod.splits)
  from convert_item_cases [OF i] have "p = wav_path_of L ui g" by blast
  with i r that show thesis by blast
qed

lemma convert_files_world:
  assumes "convert_files t L ui w c n fs = Inr (w', c', n')"
  shows "c' = c @ resolved L ui fs
       \<and> n' = n + tts_count fs
       \<and> now w' = now w
       \<and> (\<forall>x. suffix x = ''.txt'' \<longrightarrow> files w' x = files w x)
       \<and> (\<forall>x. files w' x = files w x \<or> (\<exists>d. files w' x = Some \<lparr>st_mtime = now w, data = d\<rparr>))"
  using assms
proof (induction fs arbitrary: w c n)
  case Nil
  then show ?case by (simp add: resolved_def tts_count_def)
next
  case (Cons g gs)
  show ?case
  proof (cases "suffix g = ''.txt''")
    case True
    from Cons.prems True obtain w1 where
      i: "convert_item t L ui w g = Inr (w1, wav_path_of L ui g)"
      and r: "convert_files t L ui w1 (c @ [wav_path_of L ui g]) (n + 1) gs = Inr (w', c', n')"
      by (rule convert_files_Cons_txt)
    from convert_item_world [OF i] have n1: "now w1 = now w"
      and t1: "\<forall>x. suffix x = ''.txt'' \<longrightarrow> files w1 x = files w x"
      and f1: "\<forall>x. files w1 x = files w x \<or> (\<exists>d. files w1 x = Some \<lparr>st_mtime = now w, data = d\<rparr>)"
      by blast+
    from Cons.IH [OF r] have c': "c' = (c @ [wav_path_of L ui g]) @ resolved L ui gs"
      and n': "n' = (n + 1) + tts_count gs"
      and n2: "now w' = now w1"
      and t2: "\<forall>x. suffix x = ''.txt'' \<longrightarrow> files w' x = files w1 x"
      and f2: "\<forall>x. files w' x = files w1 x \<or> (\<exists>d. files w' x = Some \<lparr>st_mtime = now w1, data = d\<rparr>)"
      by blast+
    have "c' = c @ resolved L ui (g # gs)" using c' True by (simp add: resolved_def)
    moreover have "n' = n + tts_count (g # gs)" using n' True by (simp add: tts_count_def)
    moreover have "now w' = now w" using n1 n2 by simp
    moreover have "\<forall>x. suffix x = ''.txt'' \<longrightarrow> files w' x = files w x" using t1 t2 by simp
    moreover have "\<forall>x. files w' x = files w x \<or> (\<exists>d. files w' x = Some \<lparr>st_mtime = now w, data = d\<rparr>)"
      using f1 f2 n1 by metis
    ultimately show ?thesis by blast
  next
    case False
    with Cons.prems have r: "convert_files t L ui w (c @ [g]) n gs = Inr (w', c', n')" by simp
    from Cons.IH [OF r] False show ?thesis by (simp add: resolved_def tts_count_def)
  qed
qed

lemma convert_files_makes_fresh:
  assumes "convert_files t L ui w c n fs = Inr (w', c', n')"
    and "\<forall>g\<in>set fs. suffix g = ''.txt'' \<longrightarrow> (\<forall>src. files w g = Some src \<longrightarrow> st_mtime src < now w)"
  shows "\<forall>g\<in>set fs. suffix g = ''.txt'' \<longrightarrow> cache_check w' (wav_path_of L ui g) g = Inr True"
  using assms
proof (induction fs arbitrary: w c n)
  case Nil
  then show ?case by simp
next
  case (Cons g gs)
  show ?case
  proof (cases "suffix g = ''.txt''")
    case True
    from Cons.prems(1) True obtain w1 where
      i: "convert_item t L ui w g = Inr (w1, wav_path_of L ui g)"
      and r: "convert_files t L ui w1 (c @ [wav_path_of L ui g]) (n + 1) gs = Inr (w', c', n')"
      by (rule convert_files_Cons_txt)
    from convert_item_world [OF i] have n1: "now w1 = now w"
      and t1: "\<forall>x. suffix x = ''.txt'' \<longrightarrow> files w1 x = files w x"
      by blast+
    have old_g: "\<forall>src. files w g = Some src \<longrightarrow> st_mtime src < now w"
      using Cons.prems(2) True by simp
    have old1: "\<forall>h\<in>set gs. suffix h = ''.txt''
                  \<longrightarrow> (\<forall>src. files w1 h = Some src \<longrightarrow> st_mtime src < now w1)"
      using Cons.prems(2) n1 t1 by simp
    from Cons.IH [OF r old1]
    have rest: "\<forall>h\<in>set gs. suffix h = ''.txt'' \<longrightarrow> cache_check w' (wav_path_of L ui h) h = Inr True" .
    from convert_item_makes_fresh [OF i True old_g]
    have f1: "cache_check w1 (wav_path_of L ui g) g = Inr True" .
    have old_g1: "\<forall>src. files w1 g = Some src \<longrightarrow> st_mtime src < now w1"
      using old_g n1 t1 True by simp
    from convert_files_world [OF r] have
      same: "files w' g = files w1 g"
      and wr: "files w' (wav_path_of L ui g) = files w1 (wav_path_of L ui g)
             \<or> (\<exists>d. files w' (wav_path_of L ui g) = Some \<lparr>st_mtime = now w1, data = d\<rparr>)"
      using True by blast+
    from fresh_stays [OF f1 True old_g1 same wr]
    have "cache_check w' (wav_path_of L ui g) g = Inr True" .
    with rest show ?thesis by simp
  next
    case False
    with Cons.prems(1) have r: "convert_files t L ui w (c @ [g]) n gs = Inr (w', c', n')" by simp
    have "\<forall>h\<in>set gs. suffix h = ''.txt''
            \<longrightarrow> (\<forall>src. files w h = Some src \<longrightarrow> st_mtime src < now w)"
      using Cons.prems(2) by simp
    from Cons.IH [OF r this] False show ?thesis by simp
  qed
qed

lemma convert_files_all_fresh:
  assumes "\<forall>g\<in>set fs. suffix g = ''.txt'' \<longrightarrow> cache_check w (wav_path_of L ui g) g = Inr True"
  shows "convert_files t L ui w c n fs = Inr (w, c @ resolved L ui fs, n + tts_count fs)"
  using assms
proof (induction fs arbitrary: c n)
  case Nil
  then show ?case by (simp add: resolved_def tts_count_def)
next
  case (Cons g gs)
  have rest: "\<forall>h\<in>set gs. suffix h = ''.txt'' \<longrightarrow> cache_check w (wav_path_of L ui h) h = Inr True"
    using Cons.prems by simp
  show ?case
  proof (cases "suffix g = ''.txt''")
    case True
    with Cons.prems have "cache_check w (wav_path_of L ui g) g = Inr True" by simp
    then have "convert_item t L ui w g = Inr (w, wav_path_of L ui g)" by (rule convert_item_fresh)
    with True Cons.IH [OF rest, of "c @ [wav_path_of L ui g]" "n + 1"] show ?thesis
      by (simp add: resolved_def tts_count_def)
  next
    case False
    with Cons.IH [OF rest, of "c @ [g]" n] show ?thesis
      by (simp add: resolved_def tts_count_def)
  qed
qed

lemma second_build_is_idle:
  assumes first: "convert_files t L ui w c n fs = Inr (w', c', n')"
    and old: "\<forall>g\<in>set fs. suffix g = ''.txt''
                \<longrightarrow> (\<forall>src. files w g = Some src \<longrightarrow> st_mtime src < now w)"
  shows "convert_files t L ui (w'\<lparr>now := t2\<rparr>) c n fs = Inr (w'\<lparr>now := t2\<rparr>, c', n')"
proof -
  from convert_files_makes_fresh [OF first old]
  have "\<forall>g\<in>set fs. suffix g = ''.txt''
          \<longrightarrow> cache_check (w'\<lparr>now := t2\<rparr>) (wav_path_of L ui g) g = Inr True"
    by (simp add: cache_check_now)
  from convert_files_all_fresh [OF this]
  have "convert_files t L ui (w'\<lparr>now := t2\<rparr>) c n fs
        = Inr (w'\<lparr>now := t2\<rparr>, c @ resolved L ui fs, n + tts_count fs)" .
  with convert_files_world [OF first] show ?thesis by simp
qed


text \<open>
  C2, as the code has it. For a narration item \<open>f\<close> with cache path \<open>wav\<close>: the test of
  lines 410-413 succeeds exactly when the cached file exists, the text file exists and
  the cached file's modification time is strictly greater than the text file's; when it
  succeeds the item is resolved to \<open>wav\<close> with the file system and the synthesis log
  unchanged. Whenever the item is resolved without stopping the run, the synthesis log
  is unchanged if and only if the test succeeded, and otherwise the log has exactly one
  more entry (the stripped text) and \<open>wav\<close> holds the synthesized audio stamped with the
  clock of the run. If a first conversion of a media list finishes and every narration
  text file of the list is strictly older than the clock of that run, a second
  conversion of the same list on the file system the first one left, at any later clock,
  changes nothing: no synthesis, same resolved list, same counts.
\<close>

theorem narration_cache_reuse:
  "((cache_check w (wav_path_of L ui f) f = Inr True)
      = (\<exists>c src. files w (wav_path_of L ui f) = Some c \<and> files w f = Some src
                 \<and> st_mtime src < st_mtime c))
   \<and> (cache_check w (wav_path_of L ui f) f = Inr True
        \<longrightarrow> convert_item t L ui w f = Inr (w, wav_path_of L ui f))
   \<and> (\<forall>w' p. convert_item t L ui w f = Inr (w', p)
        \<longrightarrow> p = wav_path_of L ui f
          \<and> ((tts_log w' = tts_log w) = (cache_check w (wav_path_of L ui f) f = Inr True))
          \<and> (cache_check w (wav_path_of L ui f) f \<noteq> Inr True
               \<longrightarrow> (\<exists>src. files w f = Some src
                      \<and> tts_log w' = tts_log w @ [py_strip (data src)]
                      \<and> files w' = (files w)(wav_path_of L ui f \<mapsto>
                            \<lparr>st_mtime = now w,
                             data = concat (kokoro_pipeline t (py_strip (data src)))\<rparr>))))
   \<and> (\<forall>fs c n w' c' n' t2.
         convert_files t L ui w c n fs = Inr (w', c', n')
         \<and> (\<forall>g\<in>set fs. suffix g = ''.txt''
               \<longrightarrow> (\<forall>src. files w g = Some src \<longrightarrow> st_mtime src < now w))
        \<longrightarrow> convert_files t L ui (w'\<lparr>now := t2\<rparr>) c n fs = Inr (w'\<lparr>now := t2\<rparr>, c', n'))"
proof -
  let ?wav = "wav_path_of L ui f"
  have d: "(cache_check w ?wav f = Inr True)
      = (\<exists>c src. files w ?wav = Some c \<and> files w f = Some src \<and> st_mtime src < st_mtime c)"
    by (rule cache_check_fresh_iff)
  have a: "cache_check w ?wav f = Inr True \<longrightarrow> convert_item t L ui w f = Inr (w, ?wav)"
    by (simp add: convert_item_fresh)
  have b: "p = ?wav
          \<and> ((tts_log w' = tts_log w) = (cache_check w ?wav f = Inr True))
          \<and> (cache_check w ?wav f \<noteq> Inr True
               \<longrightarrow> (\<exists>src. files w f = Some src
                      \<and> tts_log w' = tts_log w @ [py_strip (data src)]
                      \<and> files w' = (files w)(?wav \<mapsto>
                            \<lparr>st_mtime = now w,
                             data = concat (kokoro_pipeline t (py_strip (data src)))\<rparr>)))"
    if c: "convert_item t L ui w f = Inr (w', p)" for w' p
  proof -
    from convert_item_cases [OF c] have p: "p = ?wav"
      and alt: "(cache_check w p f = Inr True \<and> w' = w)
          \<or> (cache_check w p f = Inr False
              \<and> (\<exists>src. files w f = Some src
                    \<and> w' = w\<lparr>tts_log := tts_log w @ [py_strip (data src)],
                             files := (files w)(p \<mapsto>
                               \<lparr>st_mtime = now w,
                                data = concat (kokoro_pipeline t (py_strip (data src)))\<rparr>)\<rparr>))"
      by blast+
    from alt show ?thesis
    proof (elim disjE conjE exE)
      assume "cache_check w p f = Inr True" "w' = w"
      then show ?thesis using p by simp
    next
      fix src
      assume "cache_check w p f = Inr False" "files w f = Some src"
        "w' = w\<lparr>tts_log := tts_log w @ [py_strip (data src)],
                 files := (files w)(p \<mapsto>
                    \<lparr>st_mtime = now w,
                     data = concat (kokoro_pipeline t (py_strip (data src)))\<rparr>)\<rparr>"
      then show ?thesis using p by simp
    qed
  qed
  have c: "convert_files t L ui (w'\<lparr>now := t2\<rparr>) c n fs = Inr (w'\<lparr>now := t2\<rparr>, c', n')"
    if "convert_files t L ui w c n fs = Inr (w', c', n')
         \<and> (\<forall>g\<in>set fs. suffix g = ''.txt''
               \<longrightarrow> (\<forall>src. files w g = Some src \<longrightarrow> st_mtime src < now w))"
    for fs c n w' c' n' t2
    using that second_build_is_idle by blast
  from d a b c show ?thesis by blast
qed

theorem narration_cache_reuse_witness:
  "cache_check (demo_world [(demo_dir @ [''002.txt''], \<lparr>st_mtime = 5, data = ascii ''hello''\<rparr>)])
      (wav_path_of (make_layout [''proj''] ''demo'') False (demo_dir @ [''002.txt'']))
      (demo_dir @ [''002.txt'']) = Inr False
   \<and> log_of (convert_files demo_tts (make_layout [''proj''] ''demo'') False
        (demo_world [(demo_dir @ [''002.txt''], \<lparr>st_mtime = 5, data = ascii ''hello''\<rparr>)])
        [] 0 [demo_dir @ [''001.png''], demo_dir @ [''002.txt'']]) = [ascii ''hello'']
   \<and> log_of (convert_files demo_tts (make_layout [''proj''] ''demo'') False
        ((world_of (convert_files demo_tts (make_layout [''proj''] ''demo'') False
            (demo_world [(demo_dir @ [''002.txt''], \<lparr>st_mtime = 5, data = ascii ''hello''\<rparr>)])
            [] 0 [demo_dir @ [''001.png''], demo_dir @ [''002.txt'']]))\<lparr>now := 200\<rparr>)
        [] 0 [demo_dir @ [''001.png''], demo_dir @ [''002.txt'']]) = [ascii ''hello'']"
proof -
  let ?f = "demo_dir @ [''002.txt'']"
  let ?w = "demo_world [(?f, \<lparr>st_mtime = 5, data = ascii ''hello''\<rparr>)]"
  let ?L = "make_layout [''proj''] ''demo''"
  let ?fs = "[demo_dir @ [''001.png''], ?f]"
  let ?first = "convert_files demo_tts ?L False ?w [] 0 ?fs"
  have stale: "cache_check ?w (wav_path_of ?L False ?f) ?f = Inr False" by code_simp
  have log1: "log_of ?first = [ascii ''hello'']" by code_simp
  have "(case ?first of Inl x \<Rightarrow> False | Inr y \<Rightarrow> True)" by code_simp
  then obtain w1 c1 n1 where first: "?first = Inr (w1, c1, n1)"
    by (cases ?first) auto
  have s1: "suffix (demo_dir @ [''001.png'']) \<noteq> ''.txt''" by code_simp
  have old: "\<forall>g\<in>set ?fs. suffix g = ''.txt''
               \<longrightarrow> (\<forall>src. files ?w g = Some src \<longrightarrow> st_mtime src < now ?w)"
    using s1 by (simp add: demo_world_def)
  from narration_cache_reuse [where w = ?w and L = ?L and ui = False and t = demo_tts] first old
  have second: "convert_files demo_tts ?L False (w1\<lparr>now := 200\<rparr>) [] 0 ?fs
                = Inr (w1\<lparr>now := 200\<rparr>, c1, n1)"
    by blast
  have w1: "world_of ?first = w1"
    unfolding first by (simp add: world_of_def)
  have l1: "log_of ?first = tts_log w1"
    unfolding first by (simp add: log_of_def world_of_def)
  have "log_of (convert_files demo_tts ?L False ((world_of ?first)\<lparr>now := 200\<rparr>) [] 0 ?fs)
        = tts_log w1"
    unfolding w1 second by (simp add: log_of_def world_of_def)
  with l1 log1
  have "log_of (convert_files demo_tts ?L False ((world_of ?first)\<lparr>now := 200\<rparr>) [] 0 ?fs)
        = [ascii ''hello'']"
    by (simp only:)
  with stale log1 show ?thesis by blast
qed

text \<open>
  C2 as stated fails in two ways. A text file whose modification time equals the clock
  of the run that synthesizes it (here 100) gets a cache file that is not strictly
  newer, so a second run over the unchanged sources synthesizes again. And an item with
  no cache entry whose text is blank is not synthesized and nothing is written to its
  cache path: the run stops.
\<close>

theorem narration_cache_counterexample:
  "log_of (convert_files demo_tts (make_layout [''proj''] ''demo'') False
        (demo_world [(demo_dir @ [''002.txt''], \<lparr>st_mtime = 100, data = ascii ''hello''\<rparr>)])
        [] 0 [demo_dir @ [''001.png''], demo_dir @ [''002.txt'']]) = [ascii ''hello'']
   \<and> log_of (convert_files demo_tts (make_layout [''proj''] ''demo'') False
        ((world_of (convert_files demo_tts (make_layout [''proj''] ''demo'') False
            (demo_world [(demo_dir @ [''002.txt''], \<lparr>st_mtime = 100, data = ascii ''hello''\<rparr>)])
            [] 0 [demo_dir @ [''001.png''], demo_dir @ [''002.txt'']]))\<lparr>now := 200\<rparr>)
        [] 0 [demo_dir @ [''001.png''], demo_dir @ [''002.txt'']]) = [ascii ''hello'', ascii ''hello'']
   \<and> cache_check (demo_world [(demo_dir @ [''002.txt''], \<lparr>st_mtime = 5, data = ascii ('' '' @ [CHR 0x0A])\<rparr>)])
        (wav_path_of (make_layout [''proj''] ''demo'') False (demo_dir @ [''002.txt'']))
        (demo_dir @ [''002.txt'']) = Inr False
   \<and> log_of (convert_files demo_tts (make_layout [''proj''] ''demo'') False
        (demo_world [(demo_dir @ [''002.txt''], \<lparr>st_mtime = 5, data = ascii ('' '' @ [CHR 0x0A])\<rparr>)])
        [] 0 [demo_dir @ [''001.png''], demo_dir @ [''002.txt'']]) = []
   \<and> files (world_of (convert_files demo_tts (make_layout [''proj''] ''demo'') False
        (demo_world [(demo_dir @ [''002.txt''], \<lparr>st_mtime = 5, data = ascii ('' '' @ [CHR 0x0A])\<rparr>)])
        [] 0 [demo_dir @ [''001.png''], demo_dir @ [''002.txt'']]))
        (wav_path_of (make_layout [''proj''] ''demo'') False (demo_dir @ [''002.txt''])) = None"
  by code_simp

section \<open>The run as a whole\<close>

lemma resolved_keeps:
  "f \<in> set fs \<Longrightarrow> suffix f \<noteq> ''.txt'' \<Longrightarrow> f \<in> set (resolved L ui fs)"
  by (induction fs) (auto simp add: resolved_def)

text \<open>A run that does not stop early has passed the collected media list, with each
  \<^verbatim>\<open>.txt\<close> item resolved, to the segment loop, and the loop has finished.\<close>

lemma main_run_Inr:
  assumes run: "main_run e t fe base_path sub no_intro w = Inr res"
  shows "\<exists>ui. res_media_files res
              = resolved (make_layout base_path sub) ui
                  ((if \<not> no_intro \<and> is_dir fe (intro_dir (make_layout base_path sub))
                    then collect fe (intro_dir (make_layout base_path sub)) else [])
                   @ collect fe (screenshot_dir (make_layout base_path sub)))
       \<and> build_segments e (segment_dir (make_layout base_path sub)) FRAME_DURATION init_state
             (res_media_files res) = Inr (res_build res)"
proof -
  let ?L = "make_layout base_path sub"
  let ?main = "collect fe (screenshot_dir ?L)"
  let ?ui0 = "\<not> no_intro \<and> is_dir fe (intro_dir ?L)"
  let ?intro = "if ?ui0 then collect fe (intro_dir ?L) else []"
  let ?ui = "?ui0 \<and> ?intro \<noteq> []"
  let ?mf = "?intro @ ?main"
  let ?conv = "if tts_count ?mf > 0
               then convert_files t ?L ?ui w [] (audio_count ?mf) ?mf
               else Inr (w, ?mf, audio_count ?mf)"
  from run obtain w1 mf1 ac1 where
    conv: "?conv = Inr (w1, mf1, ac1)"
    and b: "build_segments e (segment_dir ?L) FRAME_DURATION init_state mf1 = Inr (res_build res)"
    and r: "res_media_files res = mf1"
    by (auto simp add: main_run_def Let_def split: if_splits sum.splits prod.splits)
  have "mf1 = resolved ?L ?ui ?mf"
  proof (cases "tts_count ?mf > 0")
    case True
    with conv have "convert_files t ?L ?ui w [] (audio_count ?mf) ?mf = Inr (w1, mf1, ac1)"
      by simp
    from convert_files_world [OF this] show ?thesis by simp
  next
    case False
    then have "\<forall>g\<in>set ?mf. suffix g \<noteq> ''.txt''"
      by (auto simp add: tts_count_def filter_empty_conv)
    then have "resolved ?L ?ui ?mf = ?mf"
      by (simp add: resolved_def map_idI)
    with conv False show ?thesis by simp
  qed
  with r b show ?thesis by blast
qed

text \<open>Segments are built from images with the suffix .png and audio items with the
  suffix .mp3 or .wav only.\<close>

lemma step_kinds:
  assumes "build_step e sdir fd st f nx = Inr st'"
    and "\<forall>s\<in>set (segments st). suffix (seg_image s) = ''.png''
           \<and> (\<forall>a. audio_of s = Some a \<longrightarrow> suffix a \<in> {''.mp3'', ''.wav''})"
    and "\<forall>img. current_image st = Some img \<longrightarrow> suffix img = ''.png''"
  shows "(\<forall>s\<in>set (segments st'). suffix (seg_image s) = ''.png''
           \<and> (\<forall>a. audio_of s = Some a \<longrightarrow> suffix a \<in> {''.mp3'', ''.wav''}))
       \<and> (\<forall>img. current_image st' = Some img \<longrightarrow> suffix img = ''.png'')"
  using assms
  by (auto simp add: build_step_def Let_def write_line_def split: if_splits option.splits)

lemma build_kinds:
  assumes "build_segments e sdir fd st xs = Inr st'"
    and "\<forall>s\<in>set (segments st). suffix (seg_image s) = ''.png''
           \<and> (\<forall>a. audio_of s = Some a \<longrightarrow> suffix a \<in> {''.mp3'', ''.wav''})"
    and "\<forall>img. current_image st = Some img \<longrightarrow> suffix img = ''.png''"
  shows "\<forall>s\<in>set (segments st'). suffix (seg_image s) = ''.png''
           \<and> (\<forall>a. audio_of s = Some a \<longrightarrow> suffix a \<in> {''.mp3'', ''.wav''})"
  using assms
proof (induction xs arbitrary: st)
  case Nil
  then show ?case by simp
next
  case (Cons x xs)
  from Cons.prems(1) obtain st1 where
    s1: "build_step e sdir fd st x (case xs of [] \<Rightarrow> None | n # _ \<Rightarrow> Some n) = Inr st1"
    and r: "build_segments e sdir fd st1 xs = Inr st'"
    by (rule build_segments_Cons_Inr)
  from step_kinds [OF s1 Cons.prems(2,3)] have
    k1: "\<forall>s\<in>set (segments st1). suffix (seg_image s) = ''.png''
           \<and> (\<forall>a. audio_of s = Some a \<longrightarrow> suffix a \<in> {''.mp3'', ''.wav''})"
    and k2: "\<forall>img. current_image st1 = Some img \<longrightarrow> suffix img = ''.png''"
    by blast+
  from Cons.IH [OF r k1 k2] show ?case .
qed


text \<open>
  C10, as the code has it. Take a file that the collection admits from the screenshot
  directory (or from the intro directory when it is used) and whose suffix is one of
  .png, .mp3, .wav, .txt only up to letter case. An iteration of the segment loop on it
  builds no segment and adds no duration, yet appends the manifest line of the current
  segment file and increments the segment index. In every run that does not stop before
  the end of the segment loop, the file is an item of the loop, no segment shows or plays
  it, and the manifest has, at some index, the line of a segment file that no segment of
  the run was written to. (A run whose first file is such a file, or which has no file
  with the exact suffix .png, stops before the manifest is opened: see the counterexample
  below.)
\<close>

theorem manifest_line_without_segment:
  assumes listed: "f \<in> set (iterdir fe d)"
    and dir: "d = screenshot_dir (make_layout base_path sub)
              \<or> (d = intro_dir (make_layout base_path sub)
                  \<and> (no_intro = False) \<and> is_dir fe (intro_dir (make_layout base_path sub)))"
    and cat: "catalogued fe f"
    and exact: "suffix f \<notin> set valid_extensions"
    and run: "main_run e t fe base_path sub no_intro w = Inr res"
  shows "(\<forall>st nx. build_step e (segment_dir (make_layout base_path sub)) FRAME_DURATION st f nx
                  = Inr (st\<lparr>concat_lines := concat_lines st
                              @ [concat_line e (segment_file (segment_dir (make_layout base_path sub))
                                                  (segment_index st))],
                            segment_index := segment_index st + 1\<rparr>))
       \<and> f \<in> set (res_media_files res)
       \<and> build_segments e (segment_dir (make_layout base_path sub)) FRAME_DURATION init_state
             (res_media_files res) = Inr (res_build res)
       \<and> (\<forall>s\<in>set (segments (res_build res)). seg_image s \<noteq> f \<and> audio_of s \<noteq> Some f)
       \<and> (\<exists>k < length (concat_lines (res_build res)).
             concat_lines (res_build res) ! k
               = concat_line e (segment_file (segment_dir (make_layout base_path sub)) k)
           \<and> (\<forall>s\<in>set (segments (res_build res)).
                 seg_out s \<noteq> segment_file (segment_dir (make_layout base_path sub)) k))"
proof -
  let ?L = "make_layout base_path sub"
  let ?sd = "segment_dir ?L"
  have np: "suffix f \<noteq> ''.png''" and na: "suffix f \<notin> {''.mp3'', ''.wav''}"
    and nt: "suffix f \<noteq> ''.txt''"
    using exact by (auto simp add: valid_extensions_def)
  from other_item_line_without_segment [OF np na] have
    step: "\<And>st nx. build_step e ?sd FRAME_DURATION st f nx
                  = Inr (st\<lparr>concat_lines := concat_lines st
                              @ [concat_line e (segment_file ?sd (segment_index st))],
                            segment_index := segment_index st + 1\<rparr>)"
    and whole: "\<And>pre rest st'.
            build_segments e ?sd FRAME_DURATION init_state (pre @ f # rest) = Inr st'
            \<Longrightarrow> (\<exists>k \<le> length pre.
                   k < length (concat_lines st')
                 \<and> concat_lines st' ! k = concat_line e (segment_file ?sd k)
                 \<and> (\<forall>s\<in>set (segments st'). seg_out s \<noteq> segment_file ?sd k))"
    by blast+
  from main_run_Inr [OF run] obtain ui where
    mf: "res_media_files res
           = resolved ?L ui ((if \<not> no_intro \<and> is_dir fe (intro_dir ?L)
                              then collect fe (intro_dir ?L) else [])
                             @ collect fe (screenshot_dir ?L))"
    and b: "build_segments e ?sd FRAME_DURATION init_state (res_media_files res) = Inr (res_build res)"
    by blast
  from listed cat have "f \<in> set (collect fe d)" by (simp add: collect_def)
  with dir have "f \<in> set ((if \<not> no_intro \<and> is_dir fe (intro_dir ?L)
                              then collect fe (intro_dir ?L) else [])
                             @ collect fe (screenshot_dir ?L))"
    by auto
  then have mem: "f \<in> set (res_media_files res)"
    unfolding mf using nt by (rule resolved_keeps)
  then obtain pre rest where split: "res_media_files res = pre @ f # rest"
    by (auto simp add: in_set_conv_decomp)
  from whole [of pre rest "res_build res"] b split
  have line: "\<exists>k < length (concat_lines (res_build res)).
             concat_lines (res_build res) ! k = concat_line e (segment_file ?sd k)
           \<and> (\<forall>s\<in>set (segments (res_build res)). seg_out s \<noteq> segment_file ?sd k)"
    by auto
  have "\<forall>s\<in>set (segments init_state). suffix (seg_image s) = ''.png''
           \<and> (\<forall>a. audio_of s = Some a \<longrightarrow> suffix a \<in> {''.mp3'', ''.wav''})"
    and "\<forall>img. current_image init_state = Some img \<longrightarrow> suffix img = ''.png''"
    by (simp_all add: init_state_def)
  from build_kinds [OF b this] np na
  have none: "\<forall>s\<in>set (segments (res_build res)). seg_image s \<noteq> f \<and> audio_of s \<noteq> Some f"
    by auto
  from step mem b none line show ?thesis by blast
qed

theorem manifest_line_without_segment_witness:
  "demo_dir @ [''004.TXT''] \<in> set (iterdir (demo_fs [''004.TXT'', ''001.png'']) demo_dir)
   \<and> demo_dir = screenshot_dir (make_layout [''proj''] ''demo'')
   \<and> catalogued (demo_fs [''004.TXT'', ''001.png'']) (demo_dir @ [''004.TXT''])
   \<and> suffix (demo_dir @ [''004.TXT'']) \<notin> set valid_extensions
   \<and> outcome (main_run demo_env demo_tts (demo_fs [''004.TXT'', ''001.png''])
                [''proj''] ''demo'' False (demo_world []))
       = Inr ([[''proj'', ''screenshots'', ''demo'', ''001.png''],
               [''proj'', ''screenshots'', ''demo'', ''004.TXT'']],
              0,
              \<lparr>segment_index = 2,
               current_image = Some [''proj'', ''screenshots'', ''demo'', ''001.png''],
               total_duration = 2,
               concat_lines =
                 [''file '' @ [CHR 0x27] @ ''/proj/test-videos/demo-segments/segment-0000.mp4''
                    @ [CHR 0x27, CHR 0x0A],
                  ''file '' @ [CHR 0x27] @ ''/proj/test-videos/demo-segments/segment-0001.mp4''
                    @ [CHR 0x27, CHR 0x0A]],
               segments =
                 [SilentHold [''proj'', ''screenshots'', ''demo'', ''001.png'']
                    [''proj'', ''test-videos'', ''demo-segments'', ''segment-0000.mp4''] 2]\<rparr>)
   \<and> (\<exists>k<2. [''file '' @ [CHR 0x27] @ ''/proj/test-videos/demo-segments/segment-0000.mp4''
                    @ [CHR 0x27, CHR 0x0A],
               ''file '' @ [CHR 0x27] @ ''/proj/test-videos/demo-segments/segment-0001.mp4''
                    @ [CHR 0x27, CHR 0x0A]] ! k
              = concat_line demo_env (segment_file (segment_dir (make_layout [''proj''] ''demo'')) k)
            \<and> [''proj'', ''test-videos'', ''demo-segments'', ''segment-0000.mp4'']
                \<noteq> segment_file (segment_dir (make_layout [''proj''] ''demo'')) k)"
proof -
  let ?f = "demo_dir @ [''004.TXT'']"
  let ?fe = "demo_fs [''004.TXT'', ''001.png'']"
  let ?L = "make_layout [''proj''] ''demo''"
  let ?run = "main_run demo_env demo_tts ?fe [''proj''] ''demo'' False (demo_world [])"
  let ?st = "\<lparr>segment_index = 2,
               current_image = Some [''proj'', ''screenshots'', ''demo'', ''001.png''],
               total_duration = 2,
               concat_lines =
                 [''file '' @ [CHR 0x27] @ ''/proj/test-videos/demo-segments/segment-0000.mp4''
                    @ [CHR 0x27, CHR 0x0A],
                  ''file '' @ [CHR 0x27] @ ''/proj/test-videos/demo-segments/segment-0001.mp4''
                    @ [CHR 0x27, CHR 0x0A]],
               segments =
                 [SilentHold [''proj'', ''screenshots'', ''demo'', ''001.png'']
                    [''proj'', ''test-videos'', ''demo-segments'', ''segment-0000.mp4''] 2]\<rparr>"
  have listed: "?f \<in> set (iterdir ?fe demo_dir)" by code_simp
  have d: "demo_dir = screenshot_dir ?L" by code_simp
  then have dir: "demo_dir = screenshot_dir ?L
              \<or> (demo_dir = intro_dir ?L \<and> (False = False) \<and> is_dir ?fe (intro_dir ?L))"
    by simp
  have cat: "catalogued ?fe ?f" by code_simp
  have exact: "suffix ?f \<notin> set valid_extensions" by code_simp
  have out: "outcome ?run
       = Inr ([[''proj'', ''screenshots'', ''demo'', ''001.png''],
               [''proj'', ''screenshots'', ''demo'', ''004.TXT'']], 0, ?st)"
    by code_simp
  then obtain res where run: "?run = Inr res" and rb: "res_build res = ?st"
    by (cases ?run) (auto simp add: outcome_def)
  from manifest_line_without_segment [OF listed dir cat exact run]
  have "\<exists>k < length (concat_lines (res_build res)).
             concat_lines (res_build res) ! k = concat_line demo_env (segment_file (segment_dir ?L) k)
           \<and> (\<forall>s\<in>set (segments (res_build res)). seg_out s \<noteq> segment_file (segment_dir ?L) k)"
    by blast
  then obtain k where k1: "k < length (concat_lines ?st)"
    and k2: "concat_lines ?st ! k = concat_line demo_env (segment_file (segment_dir ?L) k)"
    and k3: "\<forall>s\<in>set (segments ?st). seg_out s \<noteq> segment_file (segment_dir ?L) k"
    unfolding rb by blast
  from k1 have "k < 2" by simp
  with k2 k3 have "k < 2
      \<and> [''file '' @ [CHR 0x27] @ ''/proj/test-videos/demo-segments/segment-0000.mp4''
                    @ [CHR 0x27, CHR 0x0A],
               ''file '' @ [CHR 0x27] @ ''/proj/test-videos/demo-segments/segment-0001.mp4''
                    @ [CHR 0x27, CHR 0x0A]] ! k
          = concat_line demo_env (segment_file (segment_dir ?L) k)
      \<and> [''proj'', ''test-videos'', ''demo-segments'', ''segment-0000.mp4'']
          \<noteq> segment_file (segment_dir ?L) k"
    by simp
  then have ex: "\<exists>k<2. [''file '' @ [CHR 0x27] @ ''/proj/test-videos/demo-segments/segment-0000.mp4''
                    @ [CHR 0x27, CHR 0x0A],
               ''file '' @ [CHR 0x27] @ ''/proj/test-videos/demo-segments/segment-0001.mp4''
                    @ [CHR 0x27, CHR 0x0A]] ! k
              = concat_line demo_env (segment_file (segment_dir ?L) k)
            \<and> [''proj'', ''test-videos'', ''demo-segments'', ''segment-0000.mp4'']
                \<noteq> segment_file (segment_dir ?L) k"
    by blast
  from listed d cat exact out ex show ?thesis by blast
qed

text \<open>
  C10 as stated fails: 001.PNG is admitted by the collection and its suffix matches .png
  only up to letter case, but it is the first file of the list, so the run stops at the
  check of the first file; the segment loop does not run and no manifest line is
  written. The same happens, at the check before it, when no file has the exact suffix
  .png.
\<close>

theorem odd_case_first_file_counterexample:
  "catalogued (demo_fs [''001.PNG'', ''002.png'']) (demo_dir @ [''001.PNG''])
   \<and> py_lower (suffix (demo_dir @ [''001.PNG''])) = ''.png''
   \<and> suffix (demo_dir @ [''001.PNG'']) = ''.PNG''
   \<and> outcome (main_run demo_env demo_tts (demo_fs [''001.PNG'', ''002.png''])
                [''proj''] ''demo'' False (demo_world []))
       = Inl (FirstNotPng ''001.PNG'')
   \<and> catalogued (demo_fs [''001.PNG'']) (demo_dir @ [''001.PNG''])
   \<and> outcome (main_run demo_env demo_tts (demo_fs [''001.PNG''])
                [''proj''] ''demo'' False (demo_world []))
       = Inl NoScreenshots"
  by code_simp

end
